theory Spec2Isabelle
  imports
    Complex_Main
    "HOL-Library.Char_ord"
    "HOL-Library.List_Lexorder"
    "HOL-Library.Product_Lexorder"
begin

section \<open>Python string primitives used by the summarizer\<close>

text \<open>
  Python strings are modelled as \<open>string\<close>, one \<open>char\<close> per code point; the model covers
  text whose code points are below 256. \<open>lower_chr\<close> is \<open>str.lower\<close> on one such code
  point and \<open>isspace\<close> is \<open>str.isspace\<close>, which is also the class \<open>\s\<close> of \<open>re\<close>
  on \<open>str\<close> patterns.
\<close>

definition lower_chr :: "char \<Rightarrow> char" where
  "lower_chr c =
     (let n = (of_char c :: nat)
      in if (65 \<le> n \<and> n \<le> 90) \<or> (192 \<le> n \<and> n \<le> 222 \<and> n \<noteq> 215)
         then char_of (n + 32) else c)"

definition lower :: "string \<Rightarrow> string" where
  "lower s = map lower_chr s"

definition isspace :: "char \<Rightarrow> bool" where
  "isspace c =
     (let n = (of_char c :: nat)
      in (9 \<le> n \<and> n \<le> 13) \<or> (28 \<le> n \<and> n \<le> 32) \<or> n = 133 \<or> n = 160)"

text \<open>\<open>s.split(c)\<close> for a one-character separator: never an empty list.\<close>

fun split_chr :: "char \<Rightarrow> string \<Rightarrow> string list" where
  "split_chr c [] = ['''']"
| "split_chr c (x # xs) =
     (if x = c then [] # split_chr c xs
      else (case split_chr c xs of
              [] \<Rightarrow> [x] # []
            | y # ys \<Rightarrow> (x # y) # ys))"

text \<open>\<open>sep.join(xs)\<close>.\<close>

fun join :: "string \<Rightarrow> string list \<Rightarrow> string" where
  "join sep [] = []"
| "join sep [x] = x"
| "join sep (x # y # ys) = x @ sep @ join sep (y # ys)"

text \<open>\<open>s.rfind(c)\<close> and \<open>s.find(c)\<close> for one character: the index, or -1.\<close>

fun find_chr :: "char \<Rightarrow> string \<Rightarrow> int" where
  "find_chr c [] = -1"
| "find_chr c (x # xs) =
     (if x = c then 0
      else (let r = find_chr c xs in if r < 0 then -1 else r + 1))"

definition rfind_chr :: "char \<Rightarrow> string \<Rightarrow> int" where
  "rfind_chr c s =
     (let r = find_chr c (rev s) in if r < 0 then -1 else int (length s) - 1 - r)"

text \<open>
  \<open>os.path.splitext\<close> (posixpath): the extension starts at the last dot after the last
  slash, unless only dots lie between that slash and the dot.
\<close>

definition splitext :: "string \<Rightarrow> string \<times> string" where
  "splitext p =
     (let sepIndex = rfind_chr (CHR ''/'') p;
          dotIndex = rfind_chr (CHR ''.'') p
      in if dotIndex > sepIndex
            \<and> list_ex (\<lambda>c. c \<noteq> CHR ''.'')
                 (take (nat (dotIndex - (sepIndex + 1))) (drop (nat (sepIndex + 1)) p))
         then (take (nat dotIndex) p, drop (nat dotIndex) p)
         else (p, []))"

text \<open>\<open>os.path.basename\<close> (posixpath): what follows the last slash.\<close>

definition basename :: "string \<Rightarrow> string" where
  "basename p = drop (nat (rfind_chr (CHR ''/'') p + 1)) p"

section \<open>Skip rules and priority tiers (content\_filter.py)\<close>

definition SKIP_DIRS :: "string set" where
  "SKIP_DIRS = set
    [''node_modules'', ''vendor'', ''dist'', ''build'', ''.git'', ''__pycache__'',
     ''.next'', ''.nuxt'', ''.output'', ''.cache'', ''.tox'', ''.nox'', ''.mypy_cache'',
     ''.ruff_cache'', ''.pytest_cache'', ''.eggs'', ''eggs'', ''.venv'', ''venv'', ''env'',
     ''.env'', ''site-packages'', ''coverage'', ''htmlcov'', ''.terraform'', ''.gradle'',
     ''.idea'', ''.vscode'', ''target'', ''out'', ''bin'', ''obj'']"

definition SKIP_EXTENSIONS :: "string set" where
  "SKIP_EXTENSIONS = set
    [''.png'', ''.jpg'', ''.jpeg'', ''.gif'', ''.ico'', ''.svg'', ''.bmp'', ''.webp'', ''.tiff'',
     ''.woff'', ''.woff2'', ''.ttf'', ''.otf'', ''.eot'',
     ''.pyc'', ''.pyo'', ''.pyd'', ''.so'', ''.dll'', ''.exe'', ''.o'', ''.a'', ''.lib'',
     ''.class'', ''.jar'', ''.war'', ''.ear'',
     ''.zip'', ''.tar'', ''.gz'', ''.bz2'', ''.xz'', ''.rar'', ''.7z'',
     ''.mp3'', ''.mp4'', ''.avi'', ''.mov'', ''.wav'', ''.flac'',
     ''.pdf'', ''.doc'', ''.docx'', ''.xls'', ''.xlsx'', ''.ppt'', ''.pptx'',
     ''.sqlite'', ''.sqlite3'', ''.db'',
     ''.map'', ''.min.js'', ''.min.css'',
     ''.DS_Store'', ''.lock'']"

definition SKIP_FILES :: "string set" where
  "SKIP_FILES = set
    [''package-lock.json'', ''yarn.lock'', ''pnpm-lock.yaml'', ''Pipfile.lock'',
     ''poetry.lock'', ''Cargo.lock'', ''composer.lock'', ''Gemfile.lock'', ''go.sum'',
     ''flake.lock'', ''.gitattributes'', ''.editorconfig'', ''.browserslistrc'',
     ''thumbs.db'']"

definition TIER_1_FILES :: "string set" where
  "TIER_1_FILES = set [''readme.md'', ''readme.rst'', ''readme.txt'', ''readme'']"

definition TIER_2_FILES :: "string set" where
  "TIER_2_FILES = set
    [''package.json'', ''pyproject.toml'', ''setup.py'', ''setup.cfg'', ''cargo.toml'',
     ''go.mod'', ''pom.xml'', ''build.gradle'', ''build.gradle.kts'', ''gemfile'',
     ''composer.json'', ''mix.exs'', ''project.clj'', ''requirements.txt'',
     ''requirements-dev.txt'', ''requirements_dev.txt'', ''pipfile'', ''environment.yml'']"

definition TIER_3_FILES :: "string set" where
  "TIER_3_FILES = set
    [''dockerfile'', ''docker-compose.yml'', ''docker-compose.yaml'', ''.env.example'',
     ''.env.sample'', ''makefile'', ''procfile'', ''tsconfig.json'', ''webpack.config.js'',
     ''vite.config.ts'', ''vite.config.js'', ''next.config.js'', ''next.config.mjs'',
     ''rollup.config.js'', ''babel.config.js'', ''.babelrc'', ''jest.config.js'',
     ''jest.config.ts'', ''vitest.config.ts'', ''tox.ini'', ''noxfile.py'', ''justfile'',
     ''taskfile.yml'', ''vercel.json'', ''netlify.toml'', ''fly.toml'', ''render.yaml'',
     ''app.yaml'', ''serverless.yml'', ''cdk.json'', ''terraform.tf'', ''ansible.cfg'']"

definition TIER_4_BASENAMES :: "string set" where
  "TIER_4_BASENAMES = set
    [''main'', ''app'', ''index'', ''server'', ''cli'', ''run'', ''manage'',
     ''__main__'', ''wsgi'', ''asgi'']"

definition SOURCE_EXTENSIONS :: "string set" where
  "SOURCE_EXTENSIONS = set
    [''.py'', ''.js'', ''.ts'', ''.jsx'', ''.tsx'',
     ''.go'', ''.rs'', ''.rb'', ''.java'', ''.kt'',
     ''.c'', ''.cpp'', ''.h'', ''.hpp'', ''.cs'',
     ''.swift'', ''.scala'', ''.clj'', ''.ex'', ''.exs'',
     ''.php'', ''.lua'', ''.r'', ''.jl'',
     ''.sh'', ''.bash'', ''.zsh'', ''.fish'',
     ''.sql'', ''.graphql'', ''.gql'',
     ''.proto'']"

definition TIER_6_FILES :: "string set" where
  "TIER_6_FILES = set
    [''contributing.md'', ''changelog.md'', ''changes.md'', ''history.md'', ''authors.md'',
     ''code_of_conduct.md'', ''security.md'', ''license'', ''license.md'', ''license.txt'',
     ''notice'']"

text \<open>
  \<open>_should_skip\<close>: the loop over \<open>parts[:-1]\<close> returns at the first skipped directory
  segment; then the exact file name, then the extension of \<open>os.path.splitext\<close>, all on
  the lower-cased path.
\<close>

definition should_skip :: "string \<Rightarrow> bool" where
  "should_skip path =
     (let parts = split_chr (CHR ''/'') (lower path)
      in if list_ex (\<lambda>part. part \<in> SKIP_DIRS) (butlast parts) then True
         else (let filename = last parts;
                   ext = snd (splitext filename)
               in if filename \<in> SKIP_FILES then True
                  else if ext \<in> SKIP_EXTENSIONS then True
                  else False))"

text \<open>\<open>_get_tier\<close>: 1 is the highest priority, 99 the sentinel for an excluded file.\<close>

definition get_tier :: "string \<Rightarrow> int \<Rightarrow> int" where
  "get_tier path sz =
     (let filename = lower (basename path);
          basename_no_ext = fst (splitext filename);
          ext = snd (splitext filename)
      in if filename \<in> TIER_1_FILES then 1
         else if filename \<in> TIER_2_FILES then 2
         else if filename \<in> TIER_3_FILES then 3
         else if basename_no_ext \<in> TIER_4_BASENAMES \<and> ext \<in> SOURCE_EXTENSIONS then 4
         else if filename = ''__init__.py'' \<and> CHR ''/'' \<notin> set path then 4
         else if ext \<in> SOURCE_EXTENSIONS then 5
         else if filename \<in> TIER_6_FILES then 6
         else 99)"

text \<open>
  The decision list of the specification's tier classifier, in the order the specification
  gives it: tier-1 set, tier-2 set, tier-3 set, entry-point base name with source
  extension, source extension, supplementary-docs set, else excluded.
\<close>

definition classify_tier_claimed :: "string \<Rightarrow> int \<Rightarrow> int" where
  "classify_tier_claimed path sz =
     (let filename = lower (basename path);
          basename_no_ext = fst (splitext filename);
          ext = snd (splitext filename)
      in if filename \<in> TIER_1_FILES then 1
         else if filename \<in> TIER_2_FILES then 2
         else if filename \<in> TIER_3_FILES then 3
         else if basename_no_ext \<in> TIER_4_BASENAMES \<and> ext \<in> SOURCE_EXTENSIONS then 4
         else if ext \<in> SOURCE_EXTENSIONS then 5
         else if filename \<in> TIER_6_FILES then 6
         else 99)"

section \<open>File selection\<close>

text \<open>
  An entry of the repository tree: \<open>item["type"]\<close>, \<open>item["path"]\<close> and the optional
  \<open>item["size"]\<close> (read with \<open>item.get("size", 0)\<close>).
\<close>

record tree_item =
  te_type :: string
  te_path :: string
  te_size :: "int option"

text \<open>A selected file: the dict with keys \<open>path\<close>, \<open>size\<close>, \<open>tier\<close>.\<close>

record file_info =
  fi_path :: string
  fi_size :: int
  fi_tier :: int

definition get_size :: "tree_item \<Rightarrow> int" where
  "get_size item = (case te_size item of None \<Rightarrow> 0 | Some n \<Rightarrow> n)"

text \<open>The loop of \<open>select_files\<close> that appends to \<open>candidates\<close>.\<close>

fun select_loop :: "tree_item list \<Rightarrow> file_info list" where
  "select_loop [] = []"
| "select_loop (item # rest) =
     (if te_type item \<noteq> ''blob'' then select_loop rest
      else if should_skip (te_path item) then select_loop rest
      else if get_tier (te_path item) (get_size item) = 99 then select_loop rest
      else \<lparr>fi_path = te_path item, fi_size = get_size item,
            fi_tier = get_tier (te_path item) (get_size item)\<rparr> # select_loop rest)"

text \<open>
  \<open>candidates.sort(key=lambda f: (f["tier"], f["path"]))\<close>: a stable sort on the pair,
  integers by value and strings by code point, lexicographically.
\<close>

definition select_files :: "tree_item list \<Rightarrow> file_info list" where
  "select_files tree = sort_key (\<lambda>f. (fi_tier f, fi_path f)) (select_loop tree)"

section \<open>Truncating one file (content\_filter.py)\<close>

text \<open>\<open>str(n)\<close> for an integer: its decimal digits, with a minus sign when negative.\<close>

definition digit_chr :: "nat \<Rightarrow> char" where
  "digit_chr d = char_of (48 + d)"

fun str_nat :: "nat \<Rightarrow> string" where
  "str_nat n = (if n < 10 then [digit_chr n] else str_nat (n div 10) @ [digit_chr (n mod 10)])"

declare str_nat.simps [simp del]

definition str_int :: "int \<Rightarrow> string" where
  "str_int i = (if i < 0 then CHR ''-'' # str_nat (nat (- i)) else str_nat (nat i))"

text \<open>
  The slice \<open>xs[:k]\<close>: the first \<open>k\<close> elements, and for a negative \<open>k\<close> all but the
  last \<open>-k\<close>.
\<close>

definition slice_to :: "int \<Rightarrow> 'a list \<Rightarrow> 'a list" where
  "slice_to k xs = (if k < 0 then take (nat (int (length xs) + k)) xs else take (nat k) xs)"

definition MAX_CONTEXT_CHARS :: int where
  "MAX_CONTEXT_CHARS = 200000"

definition MAX_TREE_LINES :: int where
  "MAX_TREE_LINES = 500"

definition MAX_FILE_LINES :: int where
  "MAX_FILE_LINES = 300"

text \<open>\<open>truncate_file_content(content, max_lines)\<close>; the default of \<open>max_lines\<close> is
  \<open>MAX_FILE_LINES\<close>.\<close>

definition truncate_file_content :: "string \<Rightarrow> int \<Rightarrow> string" where
  "truncate_file_content content max_lines =
     (let lines = split_chr (CHR ''\<newline>'') content
      in if int (length lines) \<le> max_lines then content
         else join ''\<newline>'' (slice_to max_lines lines)
              @ ''\<newline>\<newline>... (truncated, '' @ str_int (int (length lines)) @ '' total lines)'')"

section \<open>Validating the model's answer (llm\_client.py)\<close>

text \<open>
  The values \<open>json.loads\<close> produces: \<open>None\<close>, booleans, integers, floats, strings, lists
  and dicts (a dict as the list of its items).
\<close>

datatype pyval =
    PNone
  | PBool bool
  | PInt int
  | PFloat real
  | PStr string
  | PList "pyval list"
  | PDict "(string \<times> pyval) list"

text \<open>The truth value of \<open>if t\<close>.\<close>

fun truthy :: "pyval \<Rightarrow> bool" where
  "truthy PNone = False"
| "truthy (PBool b) = b"
| "truthy (PInt i) = (i \<noteq> 0)"
| "truthy (PFloat r) = (r \<noteq> 0)"
| "truthy (PStr s) = (s \<noteq> [])"
| "truthy (PList xs) = (xs \<noteq> [])"
| "truthy (PDict kvs) = (kvs \<noteq> [])"

text \<open>
  \<open>str(t)\<close>: a string is itself, \<open>None\<close>, booleans and integers have their literals; the
  rendering of a float, a list or a dict is the interpreter's, taken as the parameter
  \<open>render\<close>.
\<close>

fun py_str :: "(pyval \<Rightarrow> string) \<Rightarrow> pyval \<Rightarrow> string" where
  "py_str render (PStr s) = s"
| "py_str render PNone = ''None''"
| "py_str render (PBool b) = (if b then ''True'' else ''False'')"
| "py_str render (PInt i) = str_int i"
| "py_str render v = render v"

text \<open>\<open>s.strip()\<close>: without leading and trailing whitespace.\<close>

definition strip :: "string \<Rightarrow> string" where
  "strip s = rev (dropWhile isspace (rev (dropWhile isspace s)))"

text \<open>\<open>LLMError(message, status_code)\<close>; the status code defaults to 502.\<close>

datatype llm_error = LLMError string int

record summary_result =
  summary :: string
  technologies :: "string list"
  "structure" :: string

text \<open>\<open>data.get(key)\<close>: \<open>None\<close> for a missing key.\<close>

definition dict_get :: "(string \<rightharpoonup> pyval) \<Rightarrow> string \<Rightarrow> pyval" where
  "dict_get data k = (case data k of None \<Rightarrow> PNone | Some v \<Rightarrow> v)"

text \<open>\<open>not isinstance(v, str) or not v.strip()\<close>.\<close>

fun not_valid_str :: "pyval \<Rightarrow> bool" where
  "not_valid_str (PStr s) = (strip s = [])"
| "not_valid_str v = True"

fun is_list :: "pyval \<Rightarrow> bool" where
  "is_list (PList xs) = True"
| "is_list v = False"

fun the_str :: "pyval \<Rightarrow> string" where
  "the_str (PStr s) = s"
| "the_str v = []"

fun the_list :: "pyval \<Rightarrow> pyval list" where
  "the_list (PList xs) = xs"
| "the_list v = []"

text \<open>\<open>_validate_response\<close>: the three checks in the order of the source.\<close>

definition validate_response ::
  "(pyval \<Rightarrow> string) \<Rightarrow> (string \<rightharpoonup> pyval) \<Rightarrow> llm_error + summary_result" where
  "validate_response render data =
     (let summary_v = dict_get data ''summary'';
          technologies_v = dict_get data ''technologies'';
          structure_v = dict_get data ''structure''
      in if not_valid_str summary_v
         then Inl (LLMError ''LLM response is missing a valid 'summary' field.'' 502)
         else if \<not> is_list technologies_v
         then Inl (LLMError ''LLM response is missing a valid 'technologies' field.'' 502)
         else if not_valid_str structure_v
         then Inl (LLMError ''LLM response is missing a valid 'structure' field.'' 502)
         else Inr \<lparr>summary = strip (the_str summary_v),
                   technologies = map (py_str render) (filter truthy (the_list technologies_v)),
                   structure = strip (the_str structure_v)\<rparr>)"

section \<open>Rendering the directory tree (content\_filter.py)\<close>

text \<open>
  The format \<open>:.1f\<close> of the quotient \<open>num / den\<close>: one decimal, rounded to nearest with
  ties to even. The model is exact where the float quotient is, which for the
  denominators 1024 and 1024 * 1024 is every size below \<open>2 ^ 53\<close>.
\<close>

definition fmt_1f :: "nat \<Rightarrow> nat \<Rightarrow> string" where
  "fmt_1f num den =
     (let q = (num * 10) div den;
          r = (num * 10) mod den;
          t = (if 2 * r > den \<or> (2 * r = den \<and> odd q) then q + 1 else q)
      in str_nat (t div 10) @ ''.'' @ str_nat (t mod 10))"

definition format_size :: "int \<Rightarrow> string" where
  "format_size size_bytes =
     (if size_bytes < 1024 then str_int size_bytes @ '' B''
      else if size_bytes < 1024 * 1024 then fmt_1f (nat size_bytes) 1024 @ '' KB''
      else fmt_1f (nat size_bytes) (1024 * 1024) @ '' MB'')"

text \<open>
  The loop of \<open>format_tree\<close>; \<open>n\<close> is \<open>len(tree)\<close> and \<open>lines\<close> the list built so
  far. The loop breaks, after appending the notice, once \<open>MAX_TREE_LINES\<close> lines exist.
\<close>

fun format_tree_loop :: "nat \<Rightarrow> tree_item list \<Rightarrow> string list \<Rightarrow> string list" where
  "format_tree_loop n [] lines = lines"
| "format_tree_loop n (item # rest) lines =
     (let parts = split_chr (CHR ''/'') (te_path item)
      in if list_ex (\<lambda>p. lower p \<in> SKIP_DIRS) (butlast parts)
         then format_tree_loop n rest lines
         else
           (let filename = lower (last parts);
                ext = snd (splitext filename)
            in if ext \<in> SKIP_EXTENSIONS \<or> filename \<in> SKIP_FILES
               then format_tree_loop n rest lines
               else
                 (let depth = length parts - 1;
                      prefix = concat (replicate depth ''  '');
                      name = last parts;
                      line = (if te_type item = ''tree'' then prefix @ name @ ''/''
                              else if get_size item > 0
                              then prefix @ name @ ''  ('' @ format_size (get_size item) @ '')''
                              else prefix @ name);
                      lines' = lines @ [line]
                  in if int (length lines') \<ge> MAX_TREE_LINES
                     then lines' @ [''  ... (truncated, '' @ str_nat n @ '' total entries)'']
                     else format_tree_loop n rest lines')))"

definition format_tree :: "tree_item list \<Rightarrow> string" where
  "format_tree tree = join ''\<newline>'' (format_tree_loop (length tree) tree [])"

section \<open>Building the context (content\_filter.py)\<close>

text \<open>
  The metadata dict: an absent key is \<open>None\<close>; \<open>topics\<close> defaults to the empty list.
\<close>

record metadata =
  md_name :: "string option"
  md_owner :: "string option"
  md_description :: "string option"
  md_language :: "string option"
  md_topics :: "string list"
  md_stars :: "int option"

definition build_metadata_section :: "metadata \<Rightarrow> string" where
  "build_metadata_section md =
     join ''\<newline>''
       ([''=== REPOSITORY METADATA ==='',
         ''Name: '' @ (case md_name md of None \<Rightarrow> ''Unknown'' | Some s \<Rightarrow> s),
         ''Owner: '' @ (case md_owner md of None \<Rightarrow> ''Unknown'' | Some s \<Rightarrow> s)]
        @ (case md_description md of
             None \<Rightarrow> []
           | Some d \<Rightarrow> if d \<noteq> [] then [''Description: '' @ d] else [])
        @ (case md_language md of
             None \<Rightarrow> []
           | Some l \<Rightarrow> if l \<noteq> [] then [''Primary Language: '' @ l] else [])
        @ (if md_topics md \<noteq> [] then [''Topics: '' @ join '', '' (md_topics md)] else [])
        @ [''Stars: '' @ str_int (case md_stars md of None \<Rightarrow> 0 | Some n \<Rightarrow> n),
           ''''])"

text \<open>
  The number the omission notice states: the selected files that have a body and whose
  path is not the current one.
\<close>

definition remaining_count :: "(string \<rightharpoonup> string) \<Rightarrow> file_info list \<Rightarrow> string \<Rightarrow> nat" where
  "remaining_count file_contents selected_files path =
     length (filter (\<lambda>f. file_contents (fi_path f) \<noteq> None \<and> fi_path f \<noteq> path)
               selected_files)"

definition omitted_notice :: "nat \<Rightarrow> string" where
  "omitted_notice remaining =
     ''... ('' @ str_nat remaining @ '' additional files omitted due to context budget)\<newline>''"

text \<open>
  The loop over \<open>selected_files\<close>, on the state \<open>(sections, total_chars)\<close>. The first
  list is the whole of \<open>selected_files\<close>, which the notice counts over; the second is
  what the loop still has to visit. On \<open>break\<close> the function returns without visiting
  the rest.
\<close>

fun build_loop ::
  "(string \<rightharpoonup> string) \<Rightarrow> file_info list \<Rightarrow> file_info list \<Rightarrow> string list \<times> int
     \<Rightarrow> string list \<times> int" where
  "build_loop file_contents selected_files [] st = st"
| "build_loop file_contents selected_files (file_info # rest) (sections, total_chars) =
     (case file_contents (fi_path file_info) of
        None \<Rightarrow> build_loop file_contents selected_files rest (sections, total_chars)
      | Some body \<Rightarrow>
          (let path = fi_path file_info;
               content = truncate_file_content body MAX_FILE_LINES;
               file_block = ''--- '' @ path @ '' ---\<newline>'' @ content @ ''\<newline>\<newline>'';
               block_len = int (length file_block)
           in if total_chars + block_len > MAX_CONTEXT_CHARS
              then
                (let available = MAX_CONTEXT_CHARS - total_chars - 200;
                     truncated_block = ''--- '' @ path @ '' (truncated to fit budget) ---\<newline>''
                                         @ slice_to available content @ ''\<newline>\<newline>'';
                     st' = (if fi_tier file_info \<le> 3 \<and> available > 500
                            then (sections @ [truncated_block],
                                  total_chars + int (length truncated_block))
                            else (sections, total_chars));
                     remaining = remaining_count file_contents selected_files path
                 in (fst st' @ [omitted_notice remaining], snd st'))
              else build_loop file_contents selected_files rest
                     (sections @ [file_block], total_chars + block_len)))"

text \<open>The list \<open>sections\<close> at the end of \<open>build_context\<close>, and the string returned.\<close>

definition build_sections ::
  "metadata \<Rightarrow> tree_item list \<Rightarrow> (string \<rightharpoonup> string) \<Rightarrow> file_info list \<Rightarrow> string list" where
  "build_sections md tree file_contents selected_files =
     (let meta_section = build_metadata_section md;
          tree_section = ''=== DIRECTORY STRUCTURE ===\<newline>'' @ format_tree tree @ ''\<newline>'';
          file_section_header = ''=== FILE CONTENTS ===\<newline>''
      in fst (build_loop file_contents selected_files selected_files
               ([meta_section, tree_section, file_section_header],
                int (length meta_section) + int (length tree_section)
                  + int (length file_section_header))))"

definition build_context ::
  "metadata \<Rightarrow> tree_item list \<Rightarrow> (string \<rightharpoonup> string) \<Rightarrow> file_info list \<Rightarrow> string" where
  "build_context md tree file_contents selected_files =
     join ''\<newline>'' (build_sections md tree file_contents selected_files)"

section \<open>Recovering the JSON answer (llm\_client.py)\<close>

definition startswith :: "string \<Rightarrow> string \<Rightarrow> bool" where
  "startswith s p = (take (length p) s = p)"

text \<open>
  The search \<open>re.search(r"```(?:json)?\s*\n?(.*?)\n?\s*```", text, re.DOTALL)\<close>, as the
  text of group 1 of the leftmost match. At a start position the pattern needs three
  backticks; the greedy \<open>(?:json)?\<close> and \<open>\s*\<close> take the tag and all whitespace, which
  leaves nothing for \<open>\n?\<close>; the lazy group then grows until what follows it is
  whitespace and three backticks. The alternatives that backtracking would try (less
  whitespace, no tag) succeed only if this one does, since neither the tag nor whitespace
  holds a backtick, so the first one decides both the match and the group.
\<close>

definition tail_ok :: "string \<Rightarrow> bool" where
  "tail_ok u = startswith (dropWhile isspace u) ''```''"

fun lazy_group :: "string \<Rightarrow> string option" where
  "lazy_group [] = (if tail_ok [] then Some [] else None)"
| "lazy_group (c # cs) =
     (if tail_ok (c # cs) then Some []
      else (case lazy_group cs of None \<Rightarrow> None | Some g \<Rightarrow> Some (c # g)))"

definition fence_match_at :: "string \<Rightarrow> string option" where
  "fence_match_at s =
     (if startswith s ''```''
      then (let s1 = drop 3 s;
                s2 = (if startswith s1 ''json'' then drop 4 s1 else s1)
            in lazy_group (dropWhile isspace s2))
      else None)"

fun fence_search :: "string \<Rightarrow> string option" where
  "fence_search [] = fence_match_at []"
| "fence_search (c # cs) =
     (case fence_match_at (c # cs) of
        Some g \<Rightarrow> Some g
      | None \<Rightarrow> fence_search cs)"

text \<open>The slice \<open>s[i:j]\<close> for indices that are not negative.\<close>

definition slice :: "string \<Rightarrow> int \<Rightarrow> int \<Rightarrow> string" where
  "slice s i j = take (nat (j - i)) (drop (nat i) s)"

text \<open>
  The message of the parse error; its dash, U+2014, is written as the three bytes of its
  UTF-8 encoding.
\<close>

definition PARSE_ERROR :: llm_error where
  "PARSE_ERROR = LLMError
     (''LLM returned a response that could not be parsed as JSON. This is usually transient ''
      @ [CHR 0xE2, CHR 0x80, CHR 0x94] @ '' please try again.'') 502"

text \<open>
  \<open>_extract_json\<close>. The decoder \<open>json.loads\<close> of the standard library is the parameter
  \<open>loads\<close>: \<open>None\<close> stands for \<open>JSONDecodeError\<close>.
\<close>

definition extract_json :: "(string \<Rightarrow> pyval option) \<Rightarrow> string \<Rightarrow> llm_error + pyval" where
  "extract_json loads text0 =
     (let text1 = strip text0;
          text = (case fence_search text1 of Some g \<Rightarrow> strip g | None \<Rightarrow> text1)
      in case loads text of
           Some v \<Rightarrow> Inr v
         | None \<Rightarrow>
             (let brace_start = find_chr (CHR ''{'') text;
                  brace_end = rfind_chr (CHR ''}'') text
              in if brace_start \<noteq> - 1 \<and> brace_end > brace_start
                 then (case loads (slice text brace_start (brace_end + 1)) of
                         Some v \<Rightarrow> Inr v
                       | None \<Rightarrow> Inl PARSE_ERROR)
                 else Inl PARSE_ERROR))"

text \<open>
  The text that \<open>_extract_json\<close> decodes first: the stripped input, or the stripped
  group of the fence match when there is one.
\<close>

definition unfence :: "string \<Rightarrow> string" where
  "unfence text0 =
     (case fence_search (strip text0) of Some g \<Rightarrow> strip g | None \<Rightarrow> strip text0)"

text \<open>
  The values of \<open>json.loads\<close> on the texts of the examples below: two objects decode,
  every other text the examples pass to the decoder is not JSON.
\<close>

definition json_loads_sample :: "string \<Rightarrow> pyval option" where
  \<open>json_loads_sample s =
     (if s = ''{"a": "```x```"}'' then Some (PDict [(''a'', PStr ''```x```'')])
      else if s = ''{"a": 1}'' then Some (PDict [(''a'', PInt 1)])
      else None)\<close>

section \<open>Parsing the repository URL (github\_fetcher.py)\<close>

text \<open>\<open>s.rstrip(c)\<close> and \<open>s.strip(c)\<close> for one character.\<close>

definition rstrip_chr :: "char \<Rightarrow> string \<Rightarrow> string" where
  "rstrip_chr c s = rev (dropWhile (\<lambda>x. x = c) (rev s))"

definition strip_chr :: "char \<Rightarrow> string \<Rightarrow> string" where
  "strip_chr c s = rstrip_chr c (dropWhile (\<lambda>x. x = c) s)"

definition endswith :: "string \<Rightarrow> string \<Rightarrow> bool" where
  "endswith s p = (length p \<le> length s \<and> drop (length s - length p) s = p)"

text \<open>
  \<open>GitHubFetchError(message, status_code)\<close>, and the \<open>ValueError\<close> that
  \<open>urllib.parse.urlparse\<close> raises and \<open>parse_github_url\<close> does not catch.
\<close>

datatype url_error = GitHubFetchError string int | ValueError string

text \<open>What \<open>parse_github_url\<close> reads of the parse result: \<open>hostname\<close> and \<open>path\<close>.\<close>

record parsed_url =
  url_hostname :: "string option"
  url_path :: string

text \<open>The class \<open>\w\<close> of \<open>re\<close> on \<open>str\<close>, for code points below 256.\<close>

definition isword :: "char \<Rightarrow> bool" where
  "isword c =
     (let n = (of_char c :: nat)
      in (48 \<le> n \<and> n \<le> 57) \<or> (65 \<le> n \<and> n \<le> 90) \<or> n = 95 \<or> (97 \<le> n \<and> n \<le> 122)
         \<or> n = 170 \<or> n = 178 \<or> n = 179 \<or> n = 181 \<or> n = 185 \<or> n = 186
         \<or> (188 \<le> n \<and> n \<le> 190) \<or> (192 \<le> n \<and> n \<le> 214) \<or> (216 \<le> n \<and> n \<le> 246)
         \<or> 248 \<le> n)"

definition name_chr :: "char \<Rightarrow> bool" where
  "name_chr c = (isword c \<or> c = CHR ''.'' \<or> c = CHR ''-'')"

text \<open>
  \<open>re.compile(r"^[\w.\-]+$").match(s)\<close>: one or more characters of the class, up to the
  end of the string or to a single newline that ends it.
\<close>

definition name_match :: "string \<Rightarrow> bool" where
  "name_match s =
     (let body = (if s \<noteq> [] \<and> last s = CHR ''\<newline>'' then butlast s else s)
      in body \<noteq> [] \<and> list_all name_chr body)"

text \<open>
  \<open>parse_github_url\<close>. \<open>urllib.parse.urlparse\<close> of the standard library is the
  parameter \<open>urlparse\<close>; it returns the parse result or raises. The test
  \<open>not match(owner) or not match(repo)\<close> is written as its two short-circuit steps.
\<close>

definition parse_github_url ::
  "(string \<Rightarrow> url_error + parsed_url) \<Rightarrow> string \<Rightarrow> url_error + (string \<times> string)" where
  "parse_github_url urlparse url0 =
     (let url1 = rstrip_chr (CHR ''/'') (strip url0);
          url = (if endswith url1 ''.git'' then take (length url1 - 4) url1 else url1)
      in case urlparse url of
           Inl e \<Rightarrow> Inl e
         | Inr parsed \<Rightarrow>
             if url_hostname parsed \<noteq> Some ''github.com''
                \<and> url_hostname parsed \<noteq> Some ''www.github.com''
             then Inl (GitHubFetchError ''URL must be a github.com repository URL.'' 400)
             else
               (let parts = filter (\<lambda>p. p \<noteq> [])
                              (split_chr (CHR ''/'') (strip_chr (CHR ''/'') (url_path parsed)))
                in if length parts < 2
                   then Inl (GitHubFetchError
                     (''Could not extract owner/repo from the URL. ''
                      @ ''Expected format: https://github.com/{owner}/{repo}'') 400)
                   else
                     (let owner = parts ! 0; repo = parts ! 1
                      in if \<not> name_match owner
                         then Inl (GitHubFetchError
                           (''Invalid owner or repo name: '' @ owner @ ''/'' @ repo) 400)
                         else if \<not> name_match repo
                         then Inl (GitHubFetchError
                           (''Invalid owner or repo name: '' @ owner @ ''/'' @ repo) 400)
                         else Inr (owner, repo))))"

text \<open>
  The text that \<open>parse_github_url\<close> hands to \<open>urlparse\<close>, and the non-empty segments
  of a parsed path.
\<close>

definition clean_url :: "string \<Rightarrow> string" where
  "clean_url url0 =
     (let url1 = rstrip_chr (CHR ''/'') (strip url0)
      in if endswith url1 ''.git'' then take (length url1 - 4) url1 else url1)"

definition path_parts :: "string \<Rightarrow> string list" where
  "path_parts p = filter (\<lambda>s. s \<noteq> []) (split_chr (CHR ''/'') (strip_chr (CHR ''/'') p))"

text \<open>
  The results of \<open>urlparse\<close> on the URLs of the examples below; an unbalanced bracket in
  the host raises \<open>ValueError("Invalid IPv6 URL")\<close>, and a text without scheme and
  slashes, such as \<open>not-a-url-at-all\<close>, is a bare path without a host.
\<close>

definition urlparse_sample :: "string \<Rightarrow> url_error + parsed_url" where
  "urlparse_sample u =
     (if u = ''https://[github.com/owner/repo'' then Inl (ValueError ''Invalid IPv6 URL'')
      else if u = ''https://github.com/psf/requests/tree/main''
      then Inr \<lparr>url_hostname = Some ''github.com'', url_path = ''/psf/requests/tree/main''\<rparr>
      else if u = ''https://github.com/psf/requests''
      then Inr \<lparr>url_hostname = Some ''github.com'', url_path = ''/psf/requests''\<rparr>
      else if u = ''https://gitlab.com/owner/repo''
      then Inr \<lparr>url_hostname = Some ''gitlab.com'', url_path = ''/owner/repo''\<rparr>
      else if u = ''https://github.com/onlyowner''
      then Inr \<lparr>url_hostname = Some ''github.com'', url_path = ''/onlyowner''\<rparr>
      else if u = ''https://github.com/ow ner/repo''
      then Inr \<lparr>url_hostname = Some ''github.com'', url_path = ''/ow ner/repo''\<rparr>
      else Inr \<lparr>url_hostname = None, url_path = u\<rparr>)"

section \<open>Properties of the tier classifier\<close>

lemma init_py_tiers:
  "''__init__.py'' \<notin> TIER_1_FILES" "''__init__.py'' \<notin> TIER_2_FILES"
  "''__init__.py'' \<notin> TIER_3_FILES" "fst (splitext ''__init__.py'') \<notin> TIER_4_BASENAMES"
  by code_simp+

lemma get_tier_root_init:
  assumes "lower (basename path) = ''__init__.py''" and "CHR ''/'' \<notin> set path"
  shows "get_tier path sz = 4"
  unfolding get_tier_def assms(1) Let_def using assms(2) init_py_tiers by simp

lemma get_tier_not_root_init:
  assumes "\<not> (lower (basename path) = ''__init__.py'' \<and> CHR ''/'' \<notin> set path)"
  shows "get_tier path sz = classify_tier_claimed path sz"
  using assms unfolding get_tier_def classify_tier_claimed_def Let_def by auto

lemma get_tier_examples:
  "get_tier ''README.md'' sz = 1" "get_tier ''package.json'' sz = 2"
  "get_tier ''Dockerfile'' sz = 3" "get_tier ''main.py'' sz = 4"
  "get_tier ''src/utils.py'' sz = 5" "get_tier ''LICENSE'' sz = 6"
  "get_tier ''data.csv'' sz = 99"
  by code_simp+

text \<open>
  C5, the claim as stated fails: the specification's decision list puts a root-level
  \<open>__init__.py\<close> in tier 5 (a source extension, no entry-point base name), the code
  puts it in tier 4.
\<close>

theorem get_tier_init_py_counterexample:
  "get_tier ''__init__.py'' 0 = 4 \<and> classify_tier_claimed ''__init__.py'' 0 = 5"
  by code_simp

text \<open>
  C5, amended. For every size the classifier gives tier 1 to \<open>README.md\<close>, 2 to
  \<open>package.json\<close>, 3 to \<open>Dockerfile\<close>, 4 to \<open>main.py\<close>, 5 to \<open>src/utils.py\<close>, 6 to
  \<open>LICENSE\<close> and the sentinel 99 to \<open>data.csv\<close>; and on every path it agrees with the
  specification's decision list except that a path without a slash whose lower-cased name
  is \<open>__init__.py\<close> is tier 4: that check sits between the entry-point check and the
  source-extension check.
\<close>

theorem get_tier_order:
  "get_tier ''README.md'' sz = 1 \<and> get_tier ''package.json'' sz = 2
   \<and> get_tier ''Dockerfile'' sz = 3 \<and> get_tier ''main.py'' sz = 4
   \<and> get_tier ''src/utils.py'' sz = 5 \<and> get_tier ''LICENSE'' sz = 6
   \<and> get_tier ''data.csv'' sz = 99
   \<and> get_tier path sz =
        (if lower (basename path) = ''__init__.py'' \<and> CHR ''/'' \<notin> set path then 4
         else classify_tier_claimed path sz)"
proof -
  have "get_tier path sz =
        (if lower (basename path) = ''__init__.py'' \<and> CHR ''/'' \<notin> set path then 4
         else classify_tier_claimed path sz)"
  proof (cases "lower (basename path) = ''__init__.py'' \<and> CHR ''/'' \<notin> set path")
    case True
    then show ?thesis using get_tier_root_init [of path sz] by simp
  next
    case False
    then show ?thesis using get_tier_not_root_init [of path sz] by auto
  qed
  with get_tier_examples [of sz] show ?thesis by simp
qed

section \<open>Properties of the file selection\<close>

lemma set_select_loop:
  "c \<in> set (select_loop tree) \<Longrightarrow>
     \<exists>item \<in> set tree. te_type item = ''blob'' \<and> \<not> should_skip (te_path item)
        \<and> get_tier (te_path item) (get_size item) \<noteq> 99
        \<and> c = \<lparr>fi_path = te_path item, fi_size = get_size item,
                 fi_tier = get_tier (te_path item) (get_size item)\<rparr>"
  by (induction tree) (auto split: if_splits)

lemma paths_select_loop: "set (map fi_path (select_loop tree)) \<subseteq> set (map te_path tree)"
  by (induction tree) auto

lemma distinct_select_loop:
  "distinct (map te_path tree) \<Longrightarrow> distinct (map fi_path (select_loop tree))"
proof (induction tree)
  case Nil
  then show ?case by simp
next
  case (Cons item rest)
  have "te_path item \<notin> set (map fi_path (select_loop rest))"
    using Cons.prems paths_select_loop [of rest] by auto
  with Cons show ?case by simp
qed

lemma sorted_adjacent:
  "sorted (map k xs) \<Longrightarrow> Suc i < length xs \<Longrightarrow> k (xs ! i) \<le> k (xs ! Suc i)"
  by (metis Suc_lessD length_map lessI less_imp_le_nat nth_map sorted_nth_mono)

text \<open>
  C6. For a tree whose entries have pairwise distinct paths, every candidate of
  \<open>select_files\<close> comes from a blob entry that is not skipped and whose tier is not the
  sentinel 99, no two candidates share a path, and the list is sorted ascending by
  \<open>(tier, path)\<close>: the pairs are compared lexicographically, the paths by code point (so
  case-sensitively), and in particular each candidate's pair is at most its successor's.
\<close>

theorem select_files_sorted_unique:
  assumes "distinct (map te_path tree)"
  shows "(\<forall>c \<in> set (select_files tree). \<exists>item \<in> set tree.
            te_type item = ''blob'' \<and> te_path item = fi_path c
            \<and> \<not> should_skip (fi_path c)
            \<and> fi_tier c = get_tier (fi_path c) (get_size item) \<and> fi_tier c \<noteq> 99)
         \<and> distinct (map fi_path (select_files tree))
         \<and> sorted (map (\<lambda>c. (fi_tier c, fi_path c)) (select_files tree))
         \<and> (\<forall>i. Suc i < length (select_files tree) \<longrightarrow>
               (fi_tier (select_files tree ! i), fi_path (select_files tree ! i))
                 \<le> (fi_tier (select_files tree ! Suc i), fi_path (select_files tree ! Suc i)))"
proof -
  have members: "\<forall>c \<in> set (select_files tree). \<exists>item \<in> set tree.
            te_type item = ''blob'' \<and> te_path item = fi_path c
            \<and> \<not> should_skip (fi_path c)
            \<and> fi_tier c = get_tier (fi_path c) (get_size item) \<and> fi_tier c \<noteq> 99"
  proof
    fix c assume "c \<in> set (select_files tree)"
    then have "c \<in> set (select_loop tree)" by (simp add: select_files_def)
    from set_select_loop [OF this] show "\<exists>item \<in> set tree.
            te_type item = ''blob'' \<and> te_path item = fi_path c
            \<and> \<not> should_skip (fi_path c)
            \<and> fi_tier c = get_tier (fi_path c) (get_size item) \<and> fi_tier c \<noteq> 99"
      by force
  qed
  have uniq: "distinct (map fi_path (select_files tree))"
    using distinct_select_loop [OF assms] by (simp add: select_files_def distinct_map)
  have srt: "sorted (map (\<lambda>c. (fi_tier c, fi_path c)) (select_files tree))"
    by (simp add: select_files_def)
  have adj: "\<forall>i. Suc i < length (select_files tree) \<longrightarrow>
               (fi_tier (select_files tree ! i), fi_path (select_files tree ! i))
                 \<le> (fi_tier (select_files tree ! Suc i), fi_path (select_files tree ! Suc i))"
    using sorted_adjacent [OF srt] by simp
  from members uniq srt adj show ?thesis by blast
qed

text \<open>
  The theorem at the specification's end-to-end scenario, with two source files added
  whose names differ in case: \<open>Zeta.py\<close> sorts before \<open>alpha.py\<close>.
\<close>

theorem select_files_sorted_unique_witness:
  "distinct (map te_path
      [\<lparr>te_type = ''blob'', te_path = ''alpha.py'', te_size = Some 10\<rparr>,
       \<lparr>te_type = ''blob'', te_path = ''src/main.py'', te_size = Some 1024\<rparr>,
       \<lparr>te_type = ''blob'', te_path = ''package.json'', te_size = Some 200\<rparr>,
       \<lparr>te_type = ''blob'', te_path = ''Zeta.py'', te_size = None\<rparr>,
       \<lparr>te_type = ''blob'', te_path = ''README.md'', te_size = Some 500\<rparr>,
       \<lparr>te_type = ''tree'', te_path = ''src'', te_size = None\<rparr>,
       \<lparr>te_type = ''blob'', te_path = ''node_modules/lib.js'', te_size = Some 900\<rparr>])
   \<and> sorted (map (\<lambda>c. (fi_tier c, fi_path c)) (select_files
      [\<lparr>te_type = ''blob'', te_path = ''alpha.py'', te_size = Some 10\<rparr>,
       \<lparr>te_type = ''blob'', te_path = ''src/main.py'', te_size = Some 1024\<rparr>,
       \<lparr>te_type = ''blob'', te_path = ''package.json'', te_size = Some 200\<rparr>,
       \<lparr>te_type = ''blob'', te_path = ''Zeta.py'', te_size = None\<rparr>,
       \<lparr>te_type = ''blob'', te_path = ''README.md'', te_size = Some 500\<rparr>,
       \<lparr>te_type = ''tree'', te_path = ''src'', te_size = None\<rparr>,
       \<lparr>te_type = ''blob'', te_path = ''node_modules/lib.js'', te_size = Some 900\<rparr>]))
   \<and> map (\<lambda>c. (fi_tier c, fi_path c)) (select_files
      [\<lparr>te_type = ''blob'', te_path = ''alpha.py'', te_size = Some 10\<rparr>,
       \<lparr>te_type = ''blob'', te_path = ''src/main.py'', te_size = Some 1024\<rparr>,
       \<lparr>te_type = ''blob'', te_path = ''package.json'', te_size = Some 200\<rparr>,
       \<lparr>te_type = ''blob'', te_path = ''Zeta.py'', te_size = None\<rparr>,
       \<lparr>te_type = ''blob'', te_path = ''README.md'', te_size = Some 500\<rparr>,
       \<lparr>te_type = ''tree'', te_path = ''src'', te_size = None\<rparr>,
       \<lparr>te_type = ''blob'', te_path = ''node_modules/lib.js'', te_size = Some 900\<rparr>])
     = [(1, ''README.md''), (2, ''package.json''), (4, ''src/main.py''),
        (5, ''Zeta.py''), (5, ''alpha.py'')]"
proof -
  let ?T = "[\<lparr>te_type = ''blob'', te_path = ''alpha.py'', te_size = Some 10\<rparr>,
       \<lparr>te_type = ''blob'', te_path = ''src/main.py'', te_size = Some 1024\<rparr>,
       \<lparr>te_type = ''blob'', te_path = ''package.json'', te_size = Some 200\<rparr>,
       \<lparr>te_type = ''blob'', te_path = ''Zeta.py'', te_size = None\<rparr>,
       \<lparr>te_type = ''blob'', te_path = ''README.md'', te_size = Some 500\<rparr>,
       \<lparr>te_type = ''tree'', te_path = ''src'', te_size = None\<rparr>,
       \<lparr>te_type = ''blob'', te_path = ''node_modules/lib.js'', te_size = Some 900\<rparr>]"
  have d: "distinct (map te_path ?T)" by simp
  have v: "map (\<lambda>c. (fi_tier c, fi_path c)) (select_files ?T)
     = [(1, ''README.md''), (2, ''package.json''), (4, ''src/main.py''),
        (5, ''Zeta.py''), (5, ''alpha.py'')]"
    by code_simp
  from select_files_sorted_unique [OF d] d v show ?thesis by blast
qed

section \<open>Properties of splitting, joining and decimal rendering\<close>

lemma split_chr_nonempty: "split_chr c s \<noteq> []"
  by (induction s) (auto split: list.splits)



lemma split_chr_single: "c \<notin> set s \<Longrightarrow> split_chr c s = [s]"
  by (induction s) (auto split: list.splits)





section \<open>Properties of \<open>truncate_file_content\<close>\<close>








section \<open>Properties of \<open>_validate_response\<close>\<close>

lemma validate_bad_summary:
  assumes "\<And>s. data ''summary'' = Some (PStr s) \<Longrightarrow> strip s = []"
  shows "validate_response render data
           = Inl (LLMError ''LLM response is missing a valid 'summary' field.'' 502)"
proof -
  have "not_valid_str (dict_get data ''summary'')"
  proof (cases "data ''summary''")
    case None
    then show ?thesis by (simp add: dict_get_def)
  next
    case (Some v)
    then show ?thesis using assms by (cases v) (simp_all add: dict_get_def)
  qed
  then show ?thesis by (simp add: validate_response_def Let_def)
qed

lemma validate_bad_technologies:
  assumes "data ''summary'' = Some (PStr s)" and "strip s \<noteq> []"
    and "\<And>ts. data ''technologies'' \<noteq> Some (PList ts)"
  shows "validate_response render data
           = Inl (LLMError ''LLM response is missing a valid 'technologies' field.'' 502)"
proof -
  have "\<not> is_list (dict_get data ''technologies'')"
  proof (cases "data ''technologies''")
    case None
    then show ?thesis by (simp add: dict_get_def)
  next
    case (Some v)
    then show ?thesis using assms(3) by (cases v) (simp_all add: dict_get_def)
  qed
  then show ?thesis using assms(1,2) by (simp add: validate_response_def Let_def dict_get_def)
qed

lemma validate_bad_structure:
  assumes "data ''summary'' = Some (PStr s)" and "strip s \<noteq> []"
    and "data ''technologies'' = Some (PList ts)"
    and "\<And>t. data ''structure'' = Some (PStr t) \<Longrightarrow> strip t = []"
  shows "validate_response render data
           = Inl (LLMError ''LLM response is missing a valid 'structure' field.'' 502)"
proof -
  have "not_valid_str (dict_get data ''structure'')"
  proof (cases "data ''structure''")
    case None
    then show ?thesis by (simp add: dict_get_def)
  next
    case (Some v)
    then show ?thesis using assms(4) by (cases v) (simp_all add: dict_get_def)
  qed
  then show ?thesis using assms(1,2,3)
    by (simp add: validate_response_def Let_def dict_get_def)
qed

lemma validate_ok:
  assumes "data ''summary'' = Some (PStr s)" and "strip s \<noteq> []"
    and "data ''technologies'' = Some (PList ts)"
    and "data ''structure'' = Some (PStr t)" and "strip t \<noteq> []"
  shows "validate_response render data
           = Inr \<lparr>summary = strip s,
                  technologies = map (py_str render) (filter truthy ts),
                  structure = strip t\<rparr>"
  using assms by (simp add: validate_response_def Let_def dict_get_def)

lemma validate_examples:
  "validate_response render
      [''summary'' \<mapsto> PStr '''', ''technologies'' \<mapsto> PList [], ''structure'' \<mapsto> PStr ''x'']
     = Inl (LLMError ''LLM response is missing a valid 'summary' field.'' 502)"
  "validate_response render
      [''summary'' \<mapsto> PStr ''a'',
       ''technologies'' \<mapsto> PList [PStr ''x'', PStr '''', PNone, PStr ''y''],
       ''structure'' \<mapsto> PStr ''b'']
     = Inr \<lparr>summary = ''a'', technologies = [''x'', ''y''], structure = ''b''\<rparr>"
  by code_simp+

text \<open>
  C8. \<open>_validate_response\<close> checks \<open>summary\<close>, then \<open>technologies\<close>, then \<open>structure\<close>,
  and the error names the first field that fails: \<open>summary\<close> when it is missing, not a
  string or blank after trimming; else \<open>technologies\<close> when it is missing or not a list;
  else \<open>structure\<close> when it is missing, not a string or blank after trimming. Otherwise
  it succeeds with the trimmed summary and structure and with the technologies that are
  truthy, each stringified. The two inputs of the specification behave as it says.
\<close>

theorem validate_response_order:
  "((\<forall>s. data ''summary'' = Some (PStr s) \<longrightarrow> strip s = []) \<longrightarrow>
      validate_response render data
        = Inl (LLMError ''LLM response is missing a valid 'summary' field.'' 502))
   \<and> (data ''summary'' = Some (PStr s) \<and> strip s \<noteq> []
        \<and> (\<forall>ts. data ''technologies'' \<noteq> Some (PList ts)) \<longrightarrow>
      validate_response render data
        = Inl (LLMError ''LLM response is missing a valid 'technologies' field.'' 502))
   \<and> (data ''summary'' = Some (PStr s) \<and> strip s \<noteq> []
        \<and> data ''technologies'' = Some (PList ts)
        \<and> (\<forall>t. data ''structure'' = Some (PStr t) \<longrightarrow> strip t = []) \<longrightarrow>
      validate_response render data
        = Inl (LLMError ''LLM response is missing a valid 'structure' field.'' 502))
   \<and> (data ''summary'' = Some (PStr s) \<and> strip s \<noteq> []
        \<and> data ''technologies'' = Some (PList ts)
        \<and> data ''structure'' = Some (PStr t) \<and> strip t \<noteq> [] \<longrightarrow>
      validate_response render data
        = Inr \<lparr>summary = strip s,
               technologies = map (py_str render) (filter truthy ts),
               structure = strip t\<rparr>)
   \<and> validate_response render
        [''summary'' \<mapsto> PStr '''', ''technologies'' \<mapsto> PList [], ''structure'' \<mapsto> PStr ''x'']
        = Inl (LLMError ''LLM response is missing a valid 'summary' field.'' 502)
   \<and> validate_response render
        [''summary'' \<mapsto> PStr ''a'',
         ''technologies'' \<mapsto> PList [PStr ''x'', PStr '''', PNone, PStr ''y''],
         ''structure'' \<mapsto> PStr ''b'']
        = Inr \<lparr>summary = ''a'', technologies = [''x'', ''y''], structure = ''b''\<rparr>"
proof -
  have a: "(\<forall>s. data ''summary'' = Some (PStr s) \<longrightarrow> strip s = []) \<longrightarrow>
      validate_response render data
        = Inl (LLMError ''LLM response is missing a valid 'summary' field.'' 502)"
    using validate_bad_summary [of data render] by blast
  have b: "data ''summary'' = Some (PStr s) \<and> strip s \<noteq> []
        \<and> (\<forall>ts. data ''technologies'' \<noteq> Some (PList ts)) \<longrightarrow>
      validate_response render data
        = Inl (LLMError ''LLM response is missing a valid 'technologies' field.'' 502)"
    using validate_bad_technologies [of data s render] by blast
  have c: "data ''summary'' = Some (PStr s) \<and> strip s \<noteq> []
        \<and> data ''technologies'' = Some (PList ts)
        \<and> (\<forall>t. data ''structure'' = Some (PStr t) \<longrightarrow> strip t = []) \<longrightarrow>
      validate_response render data
        = Inl (LLMError ''LLM response is missing a valid 'structure' field.'' 502)"
    using validate_bad_structure [of data s ts render] by blast
  have d: "data ''summary'' = Some (PStr s) \<and> strip s \<noteq> []
        \<and> data ''technologies'' = Some (PList ts)
        \<and> data ''structure'' = Some (PStr t) \<and> strip t \<noteq> [] \<longrightarrow>
      validate_response render data
        = Inr \<lparr>summary = strip s,
               technologies = map (py_str render) (filter truthy ts),
               structure = strip t\<rparr>"
    using validate_ok [of data s ts t render] by blast
  from a b c d validate_examples [of render] show ?thesis by blast
qed

text \<open>
  The theorem at three answers: a summary that is only whitespace, a technologies field
  that is a string, and a well-formed answer whose technologies hold a number, an empty
  list and a padded name.
\<close>

theorem validate_response_order_witness:
  "validate_response (\<lambda>v. ''[]'')
      [''summary'' \<mapsto> PStr '' '', ''technologies'' \<mapsto> PList [], ''structure'' \<mapsto> PStr ''x'']
     = Inl (LLMError ''LLM response is missing a valid 'summary' field.'' 502)
   \<and> validate_response (\<lambda>v. ''[]'')
      [''summary'' \<mapsto> PStr ''a'', ''technologies'' \<mapsto> PStr ''Python'']
     = Inl (LLMError ''LLM response is missing a valid 'technologies' field.'' 502)
   \<and> validate_response (\<lambda>v. ''[]'')
      [''summary'' \<mapsto> PStr '' a tool '',
       ''technologies'' \<mapsto> PList [PInt 3, PList [], PStr '' Go '', PInt 0],
       ''structure'' \<mapsto> PStr ''flat'']
     = Inr \<lparr>summary = ''a tool'', technologies = [''3'', '' Go ''], structure = ''flat''\<rparr>"
proof -
  let ?r = "\<lambda>v::pyval. ''[]''"
  let ?d1 = "[''summary'' \<mapsto> PStr '' '', ''technologies'' \<mapsto> PList [],
              ''structure'' \<mapsto> PStr ''x'']"
  let ?d2 = "[''summary'' \<mapsto> PStr ''a'', ''technologies'' \<mapsto> PStr ''Python'']"
  let ?d3 = "[''summary'' \<mapsto> PStr '' a tool '',
       ''technologies'' \<mapsto> PList [PInt 3, PList [], PStr '' Go '', PInt 0],
       ''structure'' \<mapsto> PStr ''flat'']"
  have s1: "strip '' '' = []" by code_simp
  have h1: "\<forall>s. ?d1 ''summary'' = Some (PStr s) \<longrightarrow> strip s = []" using s1 by simp
  have r1: "validate_response ?r ?d1
     = Inl (LLMError ''LLM response is missing a valid 'summary' field.'' 502)"
    using validate_response_order [of ?d1 ?r] h1 by blast
  have s2: "strip ''a'' \<noteq> []" by code_simp
  have h2: "?d2 ''summary'' = Some (PStr ''a'') \<and> strip ''a'' \<noteq> []
        \<and> (\<forall>ts. ?d2 ''technologies'' \<noteq> Some (PList ts))" using s2 by simp
  have r2: "validate_response ?r ?d2
     = Inl (LLMError ''LLM response is missing a valid 'technologies' field.'' 502)"
    using validate_response_order [of ?d2 ?r "''a''"] h2 by blast
  have s3: "strip '' a tool '' = ''a tool''" "strip ''flat'' = ''flat''" by code_simp+
  have h3: "?d3 ''summary'' = Some (PStr '' a tool '') \<and> strip '' a tool '' \<noteq> []
        \<and> ?d3 ''technologies'' = Some (PList [PInt 3, PList [], PStr '' Go '', PInt 0])
        \<and> ?d3 ''structure'' = Some (PStr ''flat'') \<and> strip ''flat'' \<noteq> []"
    using s3 by simp
  have t3: "map (py_str ?r) (filter truthy [PInt 3, PList [], PStr '' Go '', PInt 0])
              = [''3'', '' Go '']" by code_simp
  have r3: "validate_response ?r ?d3
     = Inr \<lparr>summary = strip '' a tool '',
            technologies = map (py_str ?r) (filter truthy [PInt 3, PList [], PStr '' Go '', PInt 0]),
            structure = strip ''flat''\<rparr>"
    using validate_response_order [of ?d3 ?r "'' a tool ''"
        "[PInt 3, PList [], PStr '' Go '', PInt 0]" "''flat''"] h3 by blast
  have r3': "validate_response ?r ?d3
     = Inr \<lparr>summary = ''a tool'', technologies = [''3'', '' Go ''], structure = ''flat''\<rparr>"
    using r3 by (simp only: s3 t3)
  from r1 r2 r3' show ?thesis by blast
qed

section \<open>The character budget of \<open>build_context\<close>\<close>

lemma length_join_newline:
  "int (length (join ''\<newline>'' xs)) = int (sum_list (map length xs)) + (if xs = [] then 0 else int (length xs) - 1)"
  by (induction "''\<newline>''" xs rule: join.induct) auto

lemma length_str_nat_mono: "n \<le> m \<Longrightarrow> length (str_nat n) \<le> length (str_nat m)"
proof (induction m arbitrary: n rule: str_nat.induct)
  case (1 m)
  show ?case
  proof (cases "m < 10")
    case True
    then have "n < 10" using 1 by simp
    then show ?thesis using True by (simp add: str_nat.simps [of n] str_nat.simps [of m])
  next
    case False
    show ?thesis
    proof (cases "n < 10")
      case True
      then show ?thesis using False by (simp add: str_nat.simps [of n] str_nat.simps [of m])
    next
      case nf: False
      have "n div 10 \<le> m div 10" using 1(2) by (simp add: div_le_mono)
      then have "length (str_nat (n div 10)) \<le> length (str_nat (m div 10))"
        using 1(1) False by simp
      then show ?thesis using False nf by (simp add: str_nat.simps [of n] str_nat.simps [of m])
    qed
  qed
qed

lemma length_omitted_notice: "length (omitted_notice n) = 54 + length (str_nat n)"
  by (simp add: omitted_notice_def)

lemma remaining_count_le: "remaining_count fc sel p \<le> length sel"
  by (simp add: remaining_count_def)

lemma omitted_notice_mono:
  "length (omitted_notice (remaining_count fc sel p)) \<le> length (omitted_notice (length sel))"
  using remaining_count_le [of fc sel p, THEN length_str_nat_mono]
  by (simp add: length_omitted_notice)

lemma build_loop_bound:
  assumes "int (sum_list (map length secs)) = tot"
    and "\<forall>f \<in> set rest. fi_tier f \<le> 3 \<longrightarrow> length (fi_path f) \<le> 163"
  shows "int (sum_list (map length (fst (build_loop fc sel rest (secs, tot)))))
            \<le> max MAX_CONTEXT_CHARS tot + int (length (omitted_notice (length sel)))
         \<and> length (fst (build_loop fc sel rest (secs, tot))) \<le> length secs + length rest + 1"
  using assms
proof (induction rest arbitrary: secs tot)
  case Nil
  then show ?case by simp
next
  case (Cons f rest)
  show ?case
  proof (cases "fc (fi_path f)")
    case None
    then show ?thesis using Cons.IH [of secs tot] Cons.prems by auto
  next
    case (Some body)
    let ?content = "truncate_file_content body MAX_FILE_LINES"
    let ?block = "''--- '' @ fi_path f @ '' ---\<newline>'' @ ?content @ ''\<newline>\<newline>''"
    show ?thesis
    proof (cases "tot + int (length ?block) > MAX_CONTEXT_CHARS")
      case False
      have "int (sum_list (map length (secs @ [?block]))) = tot + int (length ?block)"
        using Cons.prems(1) by simp
      from Cons.IH [OF this] Cons.prems(2)
      have ih: "int (sum_list (map length (fst (build_loop fc sel rest
                   (secs @ [?block], tot + int (length ?block))))))
            \<le> max MAX_CONTEXT_CHARS (tot + int (length ?block))
                + int (length (omitted_notice (length sel)))"
        "length (fst (build_loop fc sel rest (secs @ [?block], tot + int (length ?block))))
            \<le> length (secs @ [?block]) + length rest + 1"
        by auto
      have eq: "build_loop fc sel (f # rest) (secs, tot)
            = build_loop fc sel rest (secs @ [?block], tot + int (length ?block))"
        using Some False by (simp add: Let_def)
      show ?thesis unfolding eq using ih False by auto
    next
      case True
      let ?avail = "MAX_CONTEXT_CHARS - tot - 200"
      let ?tb = "''--- '' @ fi_path f @ '' (truncated to fit budget) ---\<newline>''
                   @ slice_to ?avail ?content @ ''\<newline>\<newline>''"
      let ?notice = "omitted_notice (remaining_count fc sel (fi_path f))"
      show ?thesis
      proof (cases "fi_tier f \<le> 3 \<and> ?avail > 500")
        case t: True
        have eq: "fst (build_loop fc sel (f # rest) (secs, tot)) = secs @ [?tb, ?notice]"
          using Some True t by (simp add: Let_def)
        have "length (fi_path f) \<le> 163" using Cons.prems(2) t by simp
        moreover have "int (length (slice_to ?avail ?content)) \<le> ?avail"
          using t by (auto simp add: slice_to_def min_def)
        ultimately have "int (length ?tb) \<le> MAX_CONTEXT_CHARS - tot" by simp
        then show ?thesis unfolding eq using Cons.prems(1) omitted_notice_mono [of fc sel "fi_path f"]
          by simp
      next
        case f: False
        have eq: "fst (build_loop fc sel (f # rest) (secs, tot)) = secs @ [?notice]"
          using Some True f by (auto simp add: Let_def)
        show ?thesis unfolding eq using Cons.prems(1) omitted_notice_mono [of fc sel "fi_path f"]
          by simp
      qed
    qed
  qed
qed

lemma build_loop_grows:
  "length secs \<le> length (fst (build_loop fc sel rest (secs, tot)))"
proof (induction rest arbitrary: secs tot)
  case Nil
  then show ?case by simp
next
  case (Cons f rest)
  show ?case
  proof (cases "fc (fi_path f)")
    case None
    then show ?thesis using Cons.IH [of secs tot] by simp
  next
    case (Some body)
    let ?block = "''--- '' @ fi_path f @ '' ---\<newline>''
                    @ truncate_file_content body MAX_FILE_LINES @ ''\<newline>\<newline>''"
    show ?thesis
    proof (cases "tot + int (length ?block) > MAX_CONTEXT_CHARS")
      case True
      then show ?thesis using Some by (simp add: Let_def)
    next
      case False
      have "length (secs @ [?block])
              \<le> length (fst (build_loop fc sel rest (secs @ [?block], tot + int (length ?block))))"
        by (rule Cons.IH)
      then show ?thesis using Some False by (simp add: Let_def)
    qed
  qed
qed

lemma build_context_len:
  assumes "\<forall>f \<in> set sel. fi_tier f \<le> 3 \<longrightarrow> length (fi_path f) \<le> 163"
  shows "int (length (build_context md tree fc sel))
      \<le> max MAX_CONTEXT_CHARS
            (int (length (build_metadata_section md))
             + int (length (''=== DIRECTORY STRUCTURE ===\<newline>'' @ format_tree tree @ ''\<newline>''))
             + int (length ''=== FILE CONTENTS ===\<newline>''))
        + int (length sel) + 3 + int (length (omitted_notice (length sel)))"
proof -
  let ?m = "build_metadata_section md"
  let ?t = "''=== DIRECTORY STRUCTURE ===\<newline>'' @ format_tree tree @ ''\<newline>''"
  let ?h = "''=== FILE CONTENTS ===\<newline>''"
  let ?P = "int (length ?m) + int (length ?t) + int (length ?h)"
  let ?S = "fst (build_loop fc sel sel ([?m, ?t, ?h], ?P))"
  have inv: "int (sum_list (map length [?m, ?t, ?h])) = ?P" by simp
  from build_loop_bound [OF inv assms, of fc sel]
  have b1: "int (sum_list (map length ?S))
              \<le> max MAX_CONTEXT_CHARS ?P + int (length (omitted_notice (length sel)))"
    and b2: "length ?S \<le> length [?m, ?t, ?h] + length sel + 1" by blast+
  have S: "build_sections md tree fc sel = ?S"
    by (simp add: build_sections_def Let_def)
  have "int (length (build_context md tree fc sel))
          \<le> int (sum_list (map length ?S)) + int (length ?S) - 1"
    unfolding build_context_def S
    using length_join_newline [of ?S] build_loop_grows [of "[?m, ?t, ?h]" fc sel sel ?P]
    by (auto split: if_splits)
  also have "\<dots> \<le> max MAX_CONTEXT_CHARS ?P + int (length (omitted_notice (length sel)))
                 + (int (length sel) + 4) - 1"
    using b1 b2 by simp
  finally show ?thesis by simp
qed

lemma truncate_no_newline:
  assumes "CHR ''\<newline>'' \<notin> set s"
  shows "truncate_file_content s MAX_FILE_LINES = s"
  using split_chr_single [OF assms]
  by (simp add: truncate_file_content_def MAX_FILE_LINES_def Let_def)

lemma metadata_section_unknown:
  "build_metadata_section \<lparr>md_name = None, md_owner = None, md_description = None,
      md_language = None, md_topics = [], md_stars = None\<rparr>
   = ''=== REPOSITORY METADATA ===\<newline>Name: Unknown\<newline>Owner: Unknown\<newline>Stars: 0\<newline>''"
  by code_simp

lemma format_tree_nil: "format_tree [] = []"
  by code_simp

lemma str_nat_small:
  "str_nat (Suc 0) = ''1''" "str_nat 0 = ''0''" "str_nat (Suc (Suc 0)) = ''2''"
  "str_int 0 = ''0''"
  by code_simp+

lemmas eval_build =
  build_sections_def metadata_section_unknown format_tree_nil MAX_CONTEXT_CHARS_def Let_def
  slice_to_def remaining_count_def omitted_notice_def str_nat_small

text \<open>
  C1 (as evaluated on the code). The docstring of \<open>build_context\<close> promises a string
  "staying within \<open>MAX_CONTEXT_CHARS\<close>", and the specification allows on top of the budget
  only a small constant, at worst the notice line. The code exceeds both at three
  inputs. (1) Only file blocks are checked against the budget, the metadata and tree
  sections are not: a repository name of 400000 characters gives a context of 400112
  characters. (2) The block truncated to fit reserves 200 characters ("Leave room for
  header"), and a path of 1000 characters takes more: the context has 200896
  characters. (3) The newlines that join the sections are not counted: a file that
  fills the budget exactly, followed by one that no longer fits, gives 200059
  characters, the budget plus the 55 characters of the notice line plus 4.
\<close>

theorem build_context_over_budget:
  "int (length (build_context
      \<lparr>md_name = Some (replicate 400000 (CHR ''x'')), md_owner = None, md_description = None,
        md_language = None, md_topics = [], md_stars = None\<rparr> [] Map.empty []))
     = MAX_CONTEXT_CHARS + 200112
   \<and> int (length (build_context
      \<lparr>md_name = None, md_owner = None, md_description = None,
        md_language = None, md_topics = [], md_stars = None\<rparr>
      []
      [replicate 1000 (CHR ''p'') \<mapsto> replicate 250000 (CHR ''a'')]
      [\<lparr>fi_path = replicate 1000 (CHR ''p''), fi_size = 250000, fi_tier = 1\<rparr>]))
     = MAX_CONTEXT_CHARS + 896
   \<and> int (length (build_context
      \<lparr>md_name = None, md_owner = None, md_description = None,
        md_language = None, md_topics = [], md_stars = None\<rparr>
      []
      [''a.py'' \<mapsto> replicate 199868 (CHR ''c''), ''b.py'' \<mapsto> ''y'']
      [\<lparr>fi_path = ''a.py'', fi_size = 199868, fi_tier = 5\<rparr>,
       \<lparr>fi_path = ''b.py'', fi_size = 1, fi_tier = 5\<rparr>]))
     = MAX_CONTEXT_CHARS + 59
   \<and> length (omitted_notice 1) = 55"
proof -
  have a: "int (length (build_context
      \<lparr>md_name = Some (replicate 400000 (CHR ''x'')), md_owner = None, md_description = None,
        md_language = None, md_topics = [], md_stars = None\<rparr> [] Map.empty []))
     = MAX_CONTEXT_CHARS + 200112"
    by (simp add: build_context_def build_sections_def build_metadata_section_def
          format_tree_nil MAX_CONTEXT_CHARS_def Let_def str_nat_small)
  have tb: "truncate_file_content (replicate 250000 (CHR ''a'')) MAX_FILE_LINES
            = replicate 250000 (CHR ''a'')"
    by (rule truncate_no_newline) simp
  have b: "int (length (build_context
      \<lparr>md_name = None, md_owner = None, md_description = None,
        md_language = None, md_topics = [], md_stars = None\<rparr>
      []
      [replicate 1000 (CHR ''p'') \<mapsto> replicate 250000 (CHR ''a'')]
      [\<lparr>fi_path = replicate 1000 (CHR ''p''), fi_size = 250000, fi_tier = 1\<rparr>]))
     = MAX_CONTEXT_CHARS + 896"
    by (simp add: build_context_def eval_build tb)
  have tc: "truncate_file_content (replicate 199868 (CHR ''c'')) MAX_FILE_LINES
            = replicate 199868 (CHR ''c'')"
    by (rule truncate_no_newline) simp
  have ty: "truncate_file_content ''y'' MAX_FILE_LINES = ''y''"
    by (rule truncate_no_newline) simp
  have c: "int (length (build_context
      \<lparr>md_name = None, md_owner = None, md_description = None,
        md_language = None, md_topics = [], md_stars = None\<rparr>
      []
      [''a.py'' \<mapsto> replicate 199868 (CHR ''c''), ''b.py'' \<mapsto> ''y'']
      [\<lparr>fi_path = ''a.py'', fi_size = 199868, fi_tier = 5\<rparr>,
       \<lparr>fi_path = ''b.py'', fi_size = 1, fi_tier = 5\<rparr>]))
     = MAX_CONTEXT_CHARS + 59"
    by (simp add: build_context_def eval_build tc ty)
  have d: "length (omitted_notice 1) = 55"
    by (simp add: omitted_notice_def str_nat_small)
  from a b c d show ?thesis by blast
qed

text \<open>
  What the loop does bound: when every candidate of tier at most 3 has a path of at most
  163 characters, the string returned has at most as many characters as the larger of the
  budget and the three leading sections together, plus one joining newline per section
  and the notice line.
\<close>

lemma build_context_length_bound:
  assumes "\<forall>f \<in> set selected_files. fi_tier f \<le> 3 \<longrightarrow> length (fi_path f) \<le> 163"
  shows "int (length (build_context md tree file_contents selected_files))
      \<le> max MAX_CONTEXT_CHARS
            (int (length (build_metadata_section md))
             + int (length (''=== DIRECTORY STRUCTURE ===\<newline>'' @ format_tree tree @ ''\<newline>''))
             + int (length ''=== FILE CONTENTS ===\<newline>''))
        + int (length selected_files) + 3
        + int (length (omitted_notice (length selected_files)))"
  using build_context_len [OF assms] .

section \<open>What the loop of \<open>build_context\<close> does when the budget is exceeded\<close>

text \<open>
  When the next block would exceed the budget, the candidate's tier is at most 3 and more
  than 500 characters remain after the reserve of 200, the loop appends the content cut
  to that many characters under the label \<open>(truncated to fit budget)\<close>, then the
  notice, and stops: the sections do not depend on the candidates that follow.
\<close>

lemma build_loop_truncates_then_stops:
  assumes "file_contents (fi_path f) = Some body"
    and "tot + int (length (''--- '' @ fi_path f @ '' ---\<newline>''
                     @ truncate_file_content body MAX_FILE_LINES @ ''\<newline>\<newline>''))
           > MAX_CONTEXT_CHARS"
    and "fi_tier f \<le> 3"
    and "MAX_CONTEXT_CHARS - tot - 200 > 500"
  shows "fst (build_loop file_contents selected_files (f # rest) (sections, tot))
     = sections
       @ [''--- '' @ fi_path f @ '' (truncated to fit budget) ---\<newline>''
            @ take (nat (MAX_CONTEXT_CHARS - tot - 200))
                (truncate_file_content body MAX_FILE_LINES)
            @ ''\<newline>\<newline>'',
          omitted_notice (remaining_count file_contents selected_files (fi_path f))]"
  using assms by (simp add: Let_def slice_to_def)

text \<open>
  C2 (as evaluated on the code). A README of 250000 characters (tier 1) is truncated to
  fit and appended with its label; the loop then appends the notice and stops instead of
  continuing. The next candidate \<open>a.py\<close> has a body, and its block of 16 characters
  would fit what is left of the budget (199862 characters in all), yet it is not in the
  context.
\<close>

theorem build_context_stops_after_truncation:
  "build_sections
      \<lparr>md_name = None, md_owner = None, md_description = None,
        md_language = None, md_topics = [], md_stars = None\<rparr>
      []
      [''README.md'' \<mapsto> replicate 250000 (CHR ''a''), ''a.py'' \<mapsto> ''x'']
      [\<lparr>fi_path = ''README.md'', fi_size = 250000, fi_tier = 1\<rparr>,
       \<lparr>fi_path = ''a.py'', fi_size = 1, fi_tier = 5\<rparr>]
   = [''=== REPOSITORY METADATA ===\<newline>Name: Unknown\<newline>Owner: Unknown\<newline>Stars: 0\<newline>'',
      ''=== DIRECTORY STRUCTURE ===\<newline>\<newline>'',
      ''=== FILE CONTENTS ===\<newline>'',
      ''--- README.md (truncated to fit budget) ---\<newline>'' @ replicate 199683 (CHR ''a'')
         @ ''\<newline>\<newline>'',
      ''... (1 additional files omitted due to context budget)\<newline>'']
   \<and> int (length ''=== REPOSITORY METADATA ===\<newline>Name: Unknown\<newline>Owner: Unknown\<newline>Stars: 0\<newline>'')
       + int (length ''=== DIRECTORY STRUCTURE ===\<newline>\<newline>'')
       + int (length ''=== FILE CONTENTS ===\<newline>'')
       + int (length (''--- README.md (truncated to fit budget) ---\<newline>''
                        @ replicate 199683 (CHR ''a'') @ ''\<newline>\<newline>''))
       + int (length ''--- a.py ---\<newline>x\<newline>\<newline>'')
     = 199862
   \<and> 199862 \<le> MAX_CONTEXT_CHARS"
proof -
  have t: "truncate_file_content (replicate 250000 (CHR ''a'')) MAX_FILE_LINES
            = replicate 250000 (CHR ''a'')"
    by (rule truncate_no_newline) simp
  have a: "build_sections
      \<lparr>md_name = None, md_owner = None, md_description = None,
        md_language = None, md_topics = [], md_stars = None\<rparr>
      []
      [''README.md'' \<mapsto> replicate 250000 (CHR ''a''), ''a.py'' \<mapsto> ''x'']
      [\<lparr>fi_path = ''README.md'', fi_size = 250000, fi_tier = 1\<rparr>,
       \<lparr>fi_path = ''a.py'', fi_size = 1, fi_tier = 5\<rparr>]
   = [''=== REPOSITORY METADATA ===\<newline>Name: Unknown\<newline>Owner: Unknown\<newline>Stars: 0\<newline>'',
      ''=== DIRECTORY STRUCTURE ===\<newline>\<newline>'',
      ''=== FILE CONTENTS ===\<newline>'',
      ''--- README.md (truncated to fit budget) ---\<newline>'' @ replicate 199683 (CHR ''a'')
         @ ''\<newline>\<newline>'',
      ''... (1 additional files omitted due to context budget)\<newline>'']"
    by (simp add: eval_build t)
  show ?thesis unfolding a by (simp add: MAX_CONTEXT_CHARS_def)
qed

text \<open>
  C9 (as evaluated on the code). \<open>a.py\<close> fits and is appended; \<open>b.py\<close>, the last
  candidate, does not fit and the loop stops. No candidate remains after \<open>b.py\<close>, yet
  the notice states 1: the count runs over all selected files that have a body and whose
  path differs from the current one, so it includes \<open>a.py\<close>, which is in the context.
\<close>

theorem build_context_notice_counts_included_file:
  "build_sections
      \<lparr>md_name = None, md_owner = None, md_description = None,
        md_language = None, md_topics = [], md_stars = None\<rparr>
      []
      [''a.py'' \<mapsto> ''x'', ''b.py'' \<mapsto> replicate 250000 (CHR ''b'')]
      [\<lparr>fi_path = ''a.py'', fi_size = 1, fi_tier = 5\<rparr>,
       \<lparr>fi_path = ''b.py'', fi_size = 250000, fi_tier = 5\<rparr>]
   = [''=== REPOSITORY METADATA ===\<newline>Name: Unknown\<newline>Owner: Unknown\<newline>Stars: 0\<newline>'',
      ''=== DIRECTORY STRUCTURE ===\<newline>\<newline>'',
      ''=== FILE CONTENTS ===\<newline>'',
      ''--- a.py ---\<newline>x\<newline>\<newline>'',
      ''... (1 additional files omitted due to context budget)\<newline>'']"
proof -
  have t: "truncate_file_content (replicate 250000 (CHR ''b'')) MAX_FILE_LINES
            = replicate 250000 (CHR ''b'')"
    by (rule truncate_no_newline) simp
  have t2: "truncate_file_content ''x'' MAX_FILE_LINES = ''x''"
    by (rule truncate_no_newline) simp
  show ?thesis
    by (simp add: eval_build t t2)
qed

section \<open>Properties of \<open>strip\<close> and of the fence search\<close>

lemma strip_decomp:
  assumes "list_all isspace l" and "list_all isspace r"
    and "m = [] \<or> (\<not> isspace (hd m) \<and> \<not> isspace (last m))"
  shows "strip (l @ m @ r) = m"
proof (cases "m = []")
  case True
  have "\<forall>x \<in> set (l @ r). isspace x" using assms(1,2) by (auto simp add: list_all_iff)
  then have "dropWhile isspace (l @ r) = []" by (metis dropWhile_eq_Nil_conv)
  then have "strip (l @ r) = []" by (simp only: strip_def rev.simps dropWhile.simps)
  then show ?thesis using True by simp
next
  case False
  then obtain x xs where m: "m = x # xs" by (cases m) auto
  have hx: "\<not> isspace x" using assms(3) m by simp
  have "dropWhile isspace (l @ m @ r) = m @ r"
    using assms(1) hx m by (simp add: dropWhile_append list_all_iff)
  moreover have "dropWhile isspace (rev r @ rev m) = rev m"
  proof -
    obtain y ys where rm: "rev m = y # ys" using False by (cases "rev m") auto
    have "y = last m" using rm by (metis last_rev list.sel(1) rev_rev_ident)
    then have "\<not> isspace y" using assms(3) False by simp
    then show ?thesis using assms(2) rm by (simp add: dropWhile_append list_all_iff)
  qed
  ultimately show ?thesis by (simp add: strip_def)
qed

lemma strip_parts:
  "\<exists>l r. s = l @ strip s @ r \<and> list_all isspace l \<and> list_all isspace r
      \<and> (strip s = [] \<or> (\<not> isspace (hd (strip s)) \<and> \<not> isspace (last (strip s))))"
proof -
  let ?d = "dropWhile isspace s"
  let ?l = "takeWhile isspace s"
  let ?r = "rev (takeWhile isspace (rev ?d))"
  have m: "strip s = rev (dropWhile isspace (rev ?d))" by (simp add: strip_def)
  have "rev ?d = takeWhile isspace (rev ?d) @ dropWhile isspace (rev ?d)" by simp
  then have "rev (rev ?d) = rev (takeWhile isspace (rev ?d) @ dropWhile isspace (rev ?d))"
    by simp
  then have d: "?d = strip s @ ?r" unfolding m by (simp only: rev_rev_ident rev_append)
  have s: "s = ?l @ strip s @ ?r" using d takeWhile_dropWhile_id [of isspace s] by metis
  have l: "list_all isspace ?l" by (auto simp add: list_all_iff dest: set_takeWhileD)
  have r: "list_all isspace ?r" by (auto simp add: list_all_iff dest: set_takeWhileD)
  have e: "strip s = [] \<or> (\<not> isspace (hd (strip s)) \<and> \<not> isspace (last (strip s)))"
  proof (cases "strip s = []")
    case True
    then show ?thesis by simp
  next
    case False
    then have dn: "dropWhile isspace (rev ?d) \<noteq> []" unfolding m by simp
    have "last (strip s) = hd (dropWhile isspace (rev ?d))"
      unfolding m using dn by (simp add: last_rev)
    then have a: "\<not> isspace (last (strip s))" using hd_dropWhile [OF dn] by simp
    have "?d \<noteq> []" using d False by (metis append_is_Nil_conv)
    then have "\<not> isspace (hd ?d)" using hd_dropWhile by blast
    moreover have "hd ?d = hd (strip s)" using d False by (metis hd_append2)
    ultimately show ?thesis using a by simp
  qed
  from s l r e show ?thesis by blast
qed

lemma strip_strip: "strip (strip s) = strip s"
proof -
  have "strip s = [] \<or> (\<not> isspace (hd (strip s)) \<and> \<not> isspace (last (strip s)))"
    using strip_parts [of s] by blast
  then show ?thesis using strip_decomp [of "[]" "[]" "strip s"] by simp
qed

lemma strip_pad:
  assumes "list_all isspace a" and "list_all isspace b"
  shows "strip (a @ s @ b) = strip s"
proof -
  obtain l r where s: "s = l @ strip s @ r" and l: "list_all isspace l" and r: "list_all isspace r"
    and e: "strip s = [] \<or> (\<not> isspace (hd (strip s)) \<and> \<not> isspace (last (strip s)))"
    using strip_parts [of s] by blast
  have "a @ s @ b = (a @ l) @ strip s @ (r @ b)" using s by (metis append.assoc)
  moreover have "strip ((a @ l) @ strip s @ (r @ b)) = strip s"
    using strip_decomp [of "a @ l" "r @ b" "strip s"] assms l r e by simp
  ultimately show ?thesis by metis
qed

lemma startswith_backtick:
  "startswith s ''```'' \<Longrightarrow> CHR ''`'' \<in> set s"
  by (cases s) (auto simp add: startswith_def)

lemma fence_match_at_no_backtick:
  "CHR ''`'' \<notin> set s \<Longrightarrow> fence_match_at s = None"
  using startswith_backtick [of s] by (auto simp add: fence_match_at_def)

lemma fence_search_no_backtick:
  "CHR ''`'' \<notin> set s \<Longrightarrow> fence_search s = None"
  by (induction s) (simp_all add: fence_match_at_no_backtick)

lemma set_strip: "set (strip s) \<subseteq> set s"
proof -
  have "set (strip s) \<subseteq> set (dropWhile isspace s)"
    unfolding strip_def using set_dropWhileD [of _ isspace "rev (dropWhile isspace s)"] by auto
  also have "\<dots> \<subseteq> set s" using set_dropWhileD [of _ isspace s] by auto
  finally show ?thesis .
qed

lemma unfence_no_backtick:
  assumes "CHR ''`'' \<notin> set s" shows "unfence s = strip s"
proof -
  have "CHR ''`'' \<notin> set (strip s)" using assms set_strip [of s] by auto
  then show ?thesis by (simp add: unfence_def fence_search_no_backtick)
qed

lemma not_space_backtick: "\<not> isspace (CHR ''`'')"
  by code_simp

lemma tail_ok_no_backtick:
  assumes "CHR ''`'' \<notin> set a"
  shows "tail_ok (a @ ''```'' @ r) = list_all isspace a"
  using assms
proof (induction a)
  case Nil
  then show ?case by (simp add: tail_ok_def startswith_def not_space_backtick)
next
  case (Cons c a)
  then show ?case
    by (cases "isspace c") (auto simp add: tail_ok_def startswith_def)
qed

lemma lazy_group_fence:
  assumes "CHR ''`'' \<notin> set a"
  shows "lazy_group (a @ ''```'' @ r) = Some (rev (dropWhile isspace (rev a)))"
  using assms
proof (induction a)
  case Nil
  have "tail_ok (''```'' @ r)" using tail_ok_no_backtick [of "[]" r] by simp
  then show ?case by simp
next
  case (Cons c a)
  show ?case
  proof (cases "list_all isspace (c # a)")
    case True
    then have "tail_ok ((c # a) @ ''```'' @ r)" using tail_ok_no_backtick [of "c # a" r] Cons.prems
      by blast
    moreover have "dropWhile isspace (rev (c # a)) = []" using True by (auto simp add: list_all_iff)
    ultimately show ?thesis by simp
  next
    case False
    then have nt: "\<not> tail_ok ((c # a) @ ''```'' @ r)"
      using tail_ok_no_backtick [of "c # a" r] Cons.prems by blast
    have ih: "lazy_group (a @ ''```'' @ r) = Some (rev (dropWhile isspace (rev a)))"
      using Cons by simp
    have "rev (dropWhile isspace (rev (c # a))) = c # rev (dropWhile isspace (rev a))"
      using False by (auto simp add: dropWhile_append list_all_iff)
    then show ?thesis using nt ih by simp
  qed
qed

lemma space_newline: "isspace (CHR ''\<newline>'')"
  by code_simp

lemma dropWhile_space_before_fence:
  "dropWhile isspace (x @ ''```'' @ r) = dropWhile isspace x @ ''```'' @ r"
  by (simp add: dropWhile_append not_space_backtick)

lemma unfence_fenced:
  assumes "CHR ''`'' \<notin> set body" and "tag = [] \<or> tag = ''json''"
  shows "unfence (''```'' @ tag @ ''\<newline>'' @ body @ ''\<newline>```'') = strip body"
proof -
  let ?T = "''```'' @ tag @ ''\<newline>'' @ body @ ''\<newline>```''"
  let ?a = "dropWhile isspace (body @ ''\<newline>'')"
  have sT: "strip ?T = ?T"
    using strip_decomp [of "[]" "[]" ?T] by (simp add: not_space_backtick)
  have s2: "(let s1 = drop 3 ?T; s2 = (if startswith s1 ''json'' then drop 4 s1 else s1)
             in dropWhile isspace s2) = ?a @ ''```'' @ []"
  proof -
    have d3: "drop 3 ?T = tag @ ''\<newline>'' @ body @ ''\<newline>```''" by simp
    have "(if startswith (tag @ ''\<newline>'' @ body @ ''\<newline>```'') ''json''
           then drop 4 (tag @ ''\<newline>'' @ body @ ''\<newline>```'')
           else tag @ ''\<newline>'' @ body @ ''\<newline>```'') = ''\<newline>'' @ body @ ''\<newline>```''"
      using assms(2) by (auto simp add: startswith_def)
    moreover have "dropWhile isspace (''\<newline>'' @ body @ ''\<newline>```'') = ?a @ ''```'' @ []"
      using dropWhile_space_before_fence [of "body @ ''\<newline>''" "[]"]
      by (simp add: space_newline)
    ultimately show ?thesis unfolding Let_def d3 by simp
  qed
  have nb: "CHR ''`'' \<notin> set ?a" using assms(1) set_dropWhileD [of _ isspace "body @ ''\<newline>''"]
    by auto
  have "fence_match_at ?T = lazy_group (?a @ ''```'' @ [])"
    using s2 by (simp add: fence_match_at_def startswith_def Let_def)
  also have "\<dots> = Some (rev (dropWhile isspace (rev ?a)))"
    by (rule lazy_group_fence [OF nb])
  also have "\<dots> = Some (strip (body @ ''\<newline>''))" by (simp add: strip_def)
  finally have fm: "fence_match_at ?T = Some (strip (body @ ''\<newline>''))" .
  have "fence_search ?T = Some (strip (body @ ''\<newline>''))"
    using fm by simp
  then have "unfence ?T = strip (strip (body @ ''\<newline>''))"
    unfolding unfence_def sT by simp
  also have "\<dots> = strip (body @ ''\<newline>'')" by (rule strip_strip)
  also have "\<dots> = strip body"
    using strip_pad [of "[]" "''\<newline>''" body] by (simp add: space_newline)
  finally show ?thesis .
qed

lemma find_chr_first:
  "c \<notin> set pre \<Longrightarrow> find_chr c (pre @ c # r) = int (length pre)"
  by (induction pre) (auto simp add: Let_def)

lemma rfind_chr_last:
  "c \<notin> set post \<Longrightarrow> rfind_chr c (pre @ c # post) = int (length pre)"
  using find_chr_first [of c "rev post" "rev pre"] by (simp add: rfind_chr_def Let_def)

lemma brace_slice:
  assumes "CHR ''{'' \<notin> set pre" and "CHR ''}'' \<notin> set post"
  shows "find_chr (CHR ''{'') (pre @ ''{'' @ mid @ ''}'' @ post) = int (length pre)"
    and "rfind_chr (CHR ''}'') (pre @ ''{'' @ mid @ ''}'' @ post) = int (length pre) + 1 + int (length mid)"
    and "slice (pre @ ''{'' @ mid @ ''}'' @ post) (int (length pre))
           (int (length pre) + 1 + int (length mid) + 1) = ''{'' @ mid @ ''}''"
proof -
  show "find_chr (CHR ''{'') (pre @ ''{'' @ mid @ ''}'' @ post) = int (length pre)"
    using find_chr_first [OF assms(1)] by simp
  show "rfind_chr (CHR ''}'') (pre @ ''{'' @ mid @ ''}'' @ post) = int (length pre) + 1 + int (length mid)"
    using rfind_chr_last [OF assms(2), of "pre @ ''{'' @ mid"] by simp
  show "slice (pre @ ''{'' @ mid @ ''}'' @ post) (int (length pre))
           (int (length pre) + 1 + int (length mid) + 1) = ''{'' @ mid @ ''}''"
  proof -
    have n: "nat (int (length pre) + 1 + int (length mid) + 1 - int (length pre))
               = length (''{'' @ mid @ ''}'')" by simp
    have "take (length (''{'' @ mid @ ''}'')) ((''{'' @ mid @ ''}'') @ post) = ''{'' @ mid @ ''}''"
      by (rule append_eq_conv_conj [THEN iffD1, THEN conjunct1, symmetric]) simp
    then show ?thesis unfolding slice_def n by simp
  qed
qed

section \<open>Properties of \<open>_extract_json\<close>\<close>

lemma extract_json_direct:
  "loads (unfence raw) = Some v \<Longrightarrow> extract_json loads raw = Inr v"
  by (simp add: extract_json_def unfence_def Let_def)

lemma extract_json_braces:
  assumes "loads (unfence raw) = None"
    and "find_chr (CHR ''{'') (unfence raw) \<noteq> - 1"
    and "rfind_chr (CHR ''}'') (unfence raw) > find_chr (CHR ''{'') (unfence raw)"
    and "loads (slice (unfence raw) (find_chr (CHR ''{'') (unfence raw))
                  (rfind_chr (CHR ''}'') (unfence raw) + 1)) = Some v"
  shows "extract_json loads raw = Inr v"
  using assms by (simp add: extract_json_def unfence_def Let_def)

lemma extract_json_error:
  assumes "loads (unfence raw) = None"
    and "find_chr (CHR ''{'') (unfence raw) = - 1
         \<or> rfind_chr (CHR ''}'') (unfence raw) \<le> find_chr (CHR ''{'') (unfence raw)
         \<or> loads (slice (unfence raw) (find_chr (CHR ''{'') (unfence raw))
                  (rfind_chr (CHR ''}'') (unfence raw) + 1)) = None"
  shows "extract_json loads raw = Inl PARSE_ERROR"
  using assms by (auto simp add: extract_json_def unfence_def Let_def)

lemma extract_json_bare:
  assumes "CHR ''`'' \<notin> set raw" and "loads (strip raw) = Some v"
  shows "extract_json loads raw = Inr v"
  using assms extract_json_direct [of loads raw v] by (simp add: unfence_no_backtick)

lemma extract_json_fenced:
  assumes "CHR ''`'' \<notin> set body" and "loads (strip body) = Some v"
  shows "extract_json loads (''```json\<newline>'' @ body @ ''\<newline>```'') = Inr v"
    and "extract_json loads (''```\<newline>'' @ body @ ''\<newline>```'') = Inr v"
proof -
  have "unfence (''```'' @ ''json'' @ ''\<newline>'' @ body @ ''\<newline>```'') = strip body"
    by (rule unfence_fenced [OF assms(1)]) simp
  then show "extract_json loads (''```json\<newline>'' @ body @ ''\<newline>```'') = Inr v"
    using assms(2) extract_json_direct [of loads "''```json\<newline>'' @ body @ ''\<newline>```''" v]
    by simp
  have "unfence (''```'' @ [] @ ''\<newline>'' @ body @ ''\<newline>```'') = strip body"
    by (rule unfence_fenced [OF assms(1)]) simp
  then show "extract_json loads (''```\<newline>'' @ body @ ''\<newline>```'') = Inr v"
    using assms(2) extract_json_direct [of loads "''```\<newline>'' @ body @ ''\<newline>```''" v]
    by simp
qed

lemma extract_json_prose:
  assumes "CHR ''`'' \<notin> set raw"
    and "strip raw = pre @ ''{'' @ mid @ ''}'' @ post"
    and "CHR ''{'' \<notin> set pre" and "CHR ''}'' \<notin> set post"
    and "loads (strip raw) = None"
    and "loads (''{'' @ mid @ ''}'') = Some v"
  shows "extract_json loads raw = Inr v"
proof -
  have u: "unfence raw = pre @ ''{'' @ mid @ ''}'' @ post"
    using assms(1,2) by (simp add: unfence_no_backtick)
  note b = brace_slice [OF assms(3,4), of mid]
  show ?thesis
  proof (rule extract_json_braces)
    show "loads (unfence raw) = None" using assms(2,5) u by simp
    show "find_chr (CHR ''{'') (unfence raw) \<noteq> - 1" unfolding u b(1) by simp
    show "rfind_chr (CHR ''}'') (unfence raw) > find_chr (CHR ''{'') (unfence raw)"
      unfolding u b(1) b(2) by simp
    show "loads (slice (unfence raw) (find_chr (CHR ''{'') (unfence raw))
                  (rfind_chr (CHR ''}'') (unfence raw) + 1)) = Some v"
      unfolding u b(1) b(2) b(3) using assms(6) by simp
  qed
qed

text \<open>
  The fallback chain on the text that is decoded first: an object decoded from it is
  returned; else an object decoded from the substring between its first \<open>{\<close> and its
  last \<open>}\<close>; else the parse error. Texts without a backtick are decoded as they are
  after stripping, and a body without backticks in one leading fence, with or without
  the tag \<open>json\<close>, is decoded after stripping.
\<close>

lemma extract_json_chain:
  "(loads (unfence raw) = Some (PDict kvs) \<longrightarrow> extract_json loads raw = Inr (PDict kvs))
   \<and> (loads (unfence raw) = None
        \<and> find_chr (CHR ''{'') (unfence raw) \<noteq> - 1
        \<and> rfind_chr (CHR ''}'') (unfence raw) > find_chr (CHR ''{'') (unfence raw)
        \<and> loads (slice (unfence raw) (find_chr (CHR ''{'') (unfence raw))
                   (rfind_chr (CHR ''}'') (unfence raw) + 1)) = Some (PDict kvs)
      \<longrightarrow> extract_json loads raw = Inr (PDict kvs))
   \<and> (loads (unfence raw) = None
        \<and> (find_chr (CHR ''{'') (unfence raw) = - 1
            \<or> rfind_chr (CHR ''}'') (unfence raw) \<le> find_chr (CHR ''{'') (unfence raw)
            \<or> loads (slice (unfence raw) (find_chr (CHR ''{'') (unfence raw))
                   (rfind_chr (CHR ''}'') (unfence raw) + 1)) = None)
      \<longrightarrow> extract_json loads raw = Inl PARSE_ERROR)
   \<and> (CHR ''`'' \<notin> set raw \<and> loads (strip raw) = Some (PDict kvs)
      \<longrightarrow> extract_json loads raw = Inr (PDict kvs))
   \<and> (CHR ''`'' \<notin> set body \<and> loads (strip body) = Some (PDict kvs)
      \<longrightarrow> extract_json loads (''```json\<newline>'' @ body @ ''\<newline>```'') = Inr (PDict kvs)
          \<and> extract_json loads (''```\<newline>'' @ body @ ''\<newline>```'') = Inr (PDict kvs))
   \<and> (CHR ''`'' \<notin> set raw \<and> strip raw = pre @ ''{'' @ mid @ ''}'' @ post
        \<and> CHR ''{'' \<notin> set pre \<and> CHR ''}'' \<notin> set post
        \<and> loads (strip raw) = None \<and> loads (''{'' @ mid @ ''}'') = Some (PDict kvs)
      \<longrightarrow> extract_json loads raw = Inr (PDict kvs))"
  using extract_json_direct [of loads raw "PDict kvs"]
    extract_json_braces [of loads raw "PDict kvs"]
    extract_json_error [of loads raw]
    extract_json_bare [of raw loads "PDict kvs"]
    extract_json_fenced [of body loads "PDict kvs"]
    extract_json_prose [of raw pre mid post loads "PDict kvs"]
  by blast
text \<open>
  The usual shapes are recovered: a padded bare object, an object in a fence with and
  without the tag, and an object between prose without braces; a text that holds no
  object gives the parse error.
\<close>

lemma extract_json_examples:
  \<open>extract_json json_loads_sample ''  {"a": 1}  '' = Inr (PDict [(''a'', PInt 1)])
   \<and> extract_json json_loads_sample ''```json\<newline>{"a": 1}\<newline>```'' = Inr (PDict [(''a'', PInt 1)])
   \<and> extract_json json_loads_sample ''```\<newline>{"a": 1}\<newline>```'' = Inr (PDict [(''a'', PInt 1)])
   \<and> extract_json json_loads_sample ''Here you go: {"a": 1} Done.'' = Inr (PDict [(''a'', PInt 1)])
   \<and> extract_json json_loads_sample ''This is not JSON at all'' = Inl PARSE_ERROR\<close>
proof -
  let ?v = \<open>[(''a'', PInt 1)]\<close>
  let ?bare = \<open>''  {"a": 1}  ''\<close>
  let ?body = \<open>''{"a": 1}''\<close>
  let ?prose = \<open>''Here you go: {"a": 1} Done.''\<close>
  let ?bad = \<open>''This is not JSON at all''\<close>
  have h1: \<open>json_loads_sample (unfence ?bare) = Some (PDict ?v)\<close> by code_simp
  have h4: \<open>CHR ''`'' \<notin> set ?bare \<and> json_loads_sample (strip ?bare) = Some (PDict ?v)\<close>
    by code_simp
  have r1: \<open>extract_json json_loads_sample ?bare = Inr (PDict ?v)\<close>
    using extract_json_chain [where loads = json_loads_sample and raw = ?bare and kvs = ?v]
      h1 h4 by blast
  have h5: \<open>CHR ''`'' \<notin> set ?body \<and> json_loads_sample (strip ?body) = Some (PDict ?v)\<close>
    by code_simp
  have r5: \<open>extract_json json_loads_sample (''```json\<newline>'' @ ?body @ ''\<newline>```'') = Inr (PDict ?v)
      \<and> extract_json json_loads_sample (''```\<newline>'' @ ?body @ ''\<newline>```'') = Inr (PDict ?v)\<close>
    using extract_json_chain [where loads = json_loads_sample and body = ?body and kvs = ?v]
      h5 by blast
  have h2: \<open>json_loads_sample (unfence ?prose) = None
        \<and> find_chr (CHR ''{'') (unfence ?prose) \<noteq> - 1
        \<and> rfind_chr (CHR ''}'') (unfence ?prose) > find_chr (CHR ''{'') (unfence ?prose)
        \<and> json_loads_sample (slice (unfence ?prose) (find_chr (CHR ''{'') (unfence ?prose))
                   (rfind_chr (CHR ''}'') (unfence ?prose) + 1)) = Some (PDict ?v)\<close>
    by code_simp
  have h6: \<open>CHR ''`'' \<notin> set ?prose
        \<and> strip ?prose = ''Here you go: '' @ ''{'' @ ''"a": 1'' @ ''}'' @ '' Done.''
        \<and> CHR ''{'' \<notin> set ''Here you go: '' \<and> CHR ''}'' \<notin> set '' Done.''
        \<and> json_loads_sample (strip ?prose) = None
        \<and> json_loads_sample (''{'' @ ''"a": 1'' @ ''}'') = Some (PDict ?v)\<close>
    by code_simp
  have r6: \<open>extract_json json_loads_sample ?prose = Inr (PDict ?v)\<close>
    using extract_json_chain [where loads = json_loads_sample and raw = ?prose and kvs = ?v
        and pre = \<open>''Here you go: ''\<close> and mid = \<open>''"a": 1''\<close> and post = \<open>'' Done.''\<close>]
      h2 h6 by blast
  have h3: \<open>json_loads_sample (unfence ?bad) = None
        \<and> (find_chr (CHR ''{'') (unfence ?bad) = - 1
            \<or> rfind_chr (CHR ''}'') (unfence ?bad) \<le> find_chr (CHR ''{'') (unfence ?bad)
            \<or> json_loads_sample (slice (unfence ?bad) (find_chr (CHR ''{'') (unfence ?bad))
                   (rfind_chr (CHR ''}'') (unfence ?bad) + 1)) = None)\<close>
    by code_simp
  have r3: \<open>extract_json json_loads_sample ?bad = Inl PARSE_ERROR\<close>
    using extract_json_chain [where loads = json_loads_sample and raw = ?bad] h3 by blast
  from r1 r5 r6 r3 show ?thesis by simp
qed

text \<open>
  C3 (as evaluated on the code). The bare text \<open>{"a": "```x```"}\<close> is a well-formed
  JSON object. The fence pattern is looked for anywhere in the text with \<open>re.search\<close>,
  before any parse is tried, so it matches the pair of fences inside the string value:
  the text that is decoded is \<open>x\<close>, which is not JSON and holds no brace, and the result
  is the parse error instead of the object. The object \<open>{"a": 1}\<close> after prose that has
  a brace of its own is not recovered either, since the substring from the first \<open>{\<close>
  to the last \<open>}\<close> starts in the prose.
\<close>

theorem extract_json_rejects_bare_object:
  \<open>json_loads_sample ''{"a": "```x```"}'' = Some (PDict [(''a'', PStr ''```x```'')])
   \<and> unfence ''{"a": "```x```"}'' = ''x''
   \<and> json_loads_sample ''x'' = None
   \<and> extract_json json_loads_sample ''{"a": "```x```"}'' = Inl PARSE_ERROR
   \<and> json_loads_sample ''{"a": 1}'' = Some (PDict [(''a'', PInt 1)])
   \<and> extract_json json_loads_sample ''Use {braces} like {"a": 1}'' = Inl PARSE_ERROR\<close>
  by code_simp

section \<open>Properties of \<open>parse_github_url\<close>\<close>

lemma parse_github_url_raises:
  "urlparse (clean_url url0) = Inl e \<Longrightarrow> parse_github_url urlparse url0 = Inl e"
  by (simp add: parse_github_url_def clean_url_def Let_def)

lemma parse_github_url_when_parsed:
  assumes "urlparse (clean_url url0) = Inr p"
  shows "parse_github_url urlparse url0 =
     (if url_hostname p \<noteq> Some ''github.com'' \<and> url_hostname p \<noteq> Some ''www.github.com''
      then Inl (GitHubFetchError ''URL must be a github.com repository URL.'' 400)
      else if length (path_parts (url_path p)) < 2
      then Inl (GitHubFetchError
             (''Could not extract owner/repo from the URL. ''
              @ ''Expected format: https://github.com/{owner}/{repo}'') 400)
      else if \<not> name_match (path_parts (url_path p) ! 0)
              \<or> \<not> name_match (path_parts (url_path p) ! 1)
      then Inl (GitHubFetchError
             (''Invalid owner or repo name: '' @ path_parts (url_path p) ! 0 @ ''/''
              @ path_parts (url_path p) ! 1) 400)
      else Inr (path_parts (url_path p) ! 0, path_parts (url_path p) ! 1))"
  using assms by (simp add: parse_github_url_def clean_url_def path_parts_def Let_def)

lemma parse_github_url_400_iff:
  assumes "urlparse (clean_url url0) = Inr p"
  shows "(\<exists>msg. parse_github_url urlparse url0 = Inl (GitHubFetchError msg 400))
     \<longleftrightarrow> ((url_hostname p \<noteq> Some ''github.com'' \<and> url_hostname p \<noteq> Some ''www.github.com'')
          \<or> length (path_parts (url_path p)) < 2
          \<or> \<not> name_match (path_parts (url_path p) ! 0)
          \<or> \<not> name_match (path_parts (url_path p) ! 1))"
  using parse_github_url_when_parsed [of urlparse url0 p] assms by auto

lemma parse_github_url_returns:
  assumes "urlparse (clean_url url0) = Inr p"
    and "url_hostname p = Some ''github.com'' \<or> url_hostname p = Some ''www.github.com''"
    and "2 \<le> length (path_parts (url_path p))"
    and "name_match (path_parts (url_path p) ! 0)"
    and "name_match (path_parts (url_path p) ! 1)"
  shows "parse_github_url urlparse url0
           = Inr (path_parts (url_path p) ! 0, path_parts (url_path p) ! 1)"
  using parse_github_url_when_parsed [of urlparse url0 p] assms by auto

lemma name_match_no_newline:
  assumes "CHR ''\<newline>'' \<notin> set s"
  shows "name_match s \<longleftrightarrow> s \<noteq> [] \<and> list_all name_chr s"
proof (cases "s = []")
  case True
  then show ?thesis by (simp add: name_match_def)
next
  case False
  then have "last s \<noteq> CHR ''\<newline>''" using assms last_in_set by metis
  then show ?thesis using False by (simp add: name_match_def)
qed

text \<open>
  C10 (as evaluated on the code). For the URL \<open>https://[github.com/owner/repo\<close> the
  call of \<open>urlparse\<close> raises \<open>ValueError\<close>; \<open>parse_github_url\<close> does not catch it, so
  the caller gets neither the error with status 400 nor a pair. The URLs that
  \<open>urlparse\<close> accepts behave as the claim says: extra path segments are ignored, and a
  foreign host, a missing repository segment and a space in a name give status 400.
\<close>

theorem parse_github_url_value_error:
  "parse_github_url urlparse_sample ''https://[github.com/owner/repo''
     = Inl (ValueError ''Invalid IPv6 URL'')
   \<and> parse_github_url urlparse_sample ''  https://github.com/psf/requests.git/  ''
     = Inr (''psf'', ''requests'')
   \<and> parse_github_url urlparse_sample ''https://github.com/psf/requests/tree/main''
     = Inr (''psf'', ''requests'')
   \<and> parse_github_url urlparse_sample ''https://gitlab.com/owner/repo''
     = Inl (GitHubFetchError ''URL must be a github.com repository URL.'' 400)
   \<and> parse_github_url urlparse_sample ''https://github.com/onlyowner''
     = Inl (GitHubFetchError
         (''Could not extract owner/repo from the URL. ''
          @ ''Expected format: https://github.com/{owner}/{repo}'') 400)
   \<and> parse_github_url urlparse_sample ''https://github.com/ow ner/repo''
     = Inl (GitHubFetchError ''Invalid owner or repo name: ow ner/repo'' 400)"
  by code_simp

section \<open>The excluded extensions that never match\<close>

lemma find_chr_split:
  "0 \<le> find_chr c s \<Longrightarrow>
     \<exists>a b. s = a @ c # b \<and> c \<notin> set a \<and> int (length a) = find_chr c s"
proof (induction s)
  case Nil
  then show ?case by simp
next
  case (Cons x s)
  show ?case
  proof (cases "x = c")
    case True
    then show ?thesis by (intro exI [of _ "[]"] exI [of _ s]) simp
  next
    case False
    then have nn: "0 \<le> find_chr c s" using Cons.prems by (simp add: Let_def split: if_splits)
    then obtain a b where ab: "s = a @ c # b" "c \<notin> set a" "int (length a) = find_chr c s"
      using Cons.IH by blast
    show ?thesis
      using False ab nn by (intro exI [of _ "x # a"] exI [of _ b]) (simp add: Let_def)
  qed
qed

lemma find_chr_less: "find_chr c s < int (length s) \<or> s = []"
  by (induction s) (auto simp add: Let_def)

lemma rfind_chr_split:
  assumes "0 \<le> rfind_chr c s"
  shows "\<exists>a b. s = a @ c # b \<and> c \<notin> set b \<and> int (length a) = rfind_chr c s"
proof -
  have nn: "0 \<le> find_chr c (rev s)"
    using assms by (simp add: rfind_chr_def Let_def split: if_splits)
  then obtain a b where ab: "rev s = a @ c # b" "c \<notin> set a"
      "int (length a) = find_chr c (rev s)"
    using find_chr_split by blast
  have s: "s = rev b @ c # rev a" using ab(1) by (metis rev_append rev.simps(2) rev_rev_ident append.assoc append_Cons append_Nil)
  have "length s = length a + length b + 1" using s by simp
  then have "int (length (rev b)) = rfind_chr c s"
    using nn ab(3) by (simp add: rfind_chr_def Let_def)
  then show ?thesis using s ab(2) by (intro exI [of _ "rev b"] exI [of _ "rev a"]) simp
qed

lemma splitext_single_dot:
  assumes "snd (splitext p) \<noteq> []"
  shows "\<exists>r. snd (splitext p) = CHR ''.'' # r \<and> CHR ''.'' \<notin> set r"
proof -
  let ?d = "rfind_chr (CHR ''.'') p"
  have e: "snd (splitext p) = drop (nat ?d) p" and gt: "?d > rfind_chr (CHR ''/'') p"
    using assms by (auto simp add: splitext_def Let_def split: if_splits)
  have "- 1 \<le> rfind_chr (CHR ''/'') p"
    using find_chr_less [of "CHR ''/''" "rev p"] by (auto simp add: rfind_chr_def Let_def)
  then have "0 \<le> ?d" using gt by simp
  then obtain a b where ab: "p = a @ CHR ''.'' # b" "CHR ''.'' \<notin> set b" "int (length a) = ?d"
    using rfind_chr_split by blast
  have "nat ?d = length a" using ab(3) by simp
  then have "drop (nat ?d) p = CHR ''.'' # b" using ab(1) by (metis append_eq_conv_conj)
  then show ?thesis using e ab(2) by simp
qed

lemma splitext_not_multi_dot:
  "snd (splitext p) \<noteq> ''.min.js''" "snd (splitext p) \<noteq> ''.min.css''"
  using splitext_single_dot [of p] by auto

lemma lower_chr_not_upper_D: "lower_chr c \<noteq> CHR ''D''"
proof
  assume a: "lower_chr c = CHR ''D''"
  let ?n = "of_char c :: nat"
  have lt: "?n < 256" by simp
  show False
  proof (cases "(65 \<le> ?n \<and> ?n \<le> 90) \<or> (192 \<le> ?n \<and> ?n \<le> 222 \<and> ?n \<noteq> 215)")
    case True
    then have "lower_chr c = char_of (?n + 32)" by (simp add: lower_chr_def Let_def)
    then have "(of_char (char_of (?n + 32) :: char) :: nat) = of_char (CHR ''D'')" using a by simp
    then have "(?n + 32) mod 256 = 68" by simp
    then show False using True lt by auto
  next
    case False
    then have "lower_chr c = c" by (auto simp add: lower_chr_def Let_def)
    then have "c = CHR ''D''" using a by simp
    then have "?n = 68" by simp
    then show False using False by simp
  qed
qed

lemma lower_no_upper_D: "CHR ''D'' \<notin> set (lower s)"
proof
  assume "CHR ''D'' \<in> set (lower s)"
  then obtain x where "lower_chr x = CHR ''D''" by (auto simp add: lower_def)
  then show False using lower_chr_not_upper_D [of x] by simp
qed

lemma splitext_subset: "set (snd (splitext p)) \<subseteq> set p"
  by (auto simp add: splitext_def Let_def dest: in_set_dropD)

lemma split_chr_subset: "x \<in> set (split_chr c s) \<Longrightarrow> set x \<subseteq> set s"
proof (induction s arbitrary: x)
  case Nil
  then show ?case by simp
next
  case (Cons a s)
  show ?case
  proof (cases "a = c")
    case True
    then have "x = [] \<or> x \<in> set (split_chr c s)" using Cons.prems by auto
    then show ?thesis using Cons.IH by auto
  next
    case False
    obtain y ys where y: "split_chr c s = y # ys"
      using split_chr_nonempty [of c s] by (cases "split_chr c s") auto
    then have "x = a # y \<or> x \<in> set ys" using Cons.prems False by auto
    moreover have "set y \<subseteq> set s" using Cons.IH [of y] y by simp
    moreover have "x \<in> set ys \<Longrightarrow> set x \<subseteq> set s" using Cons.IH [of x] y by simp
    ultimately show ?thesis by auto
  qed
qed

lemma skip_extension_never_ds_store:
  "snd (splitext (last (split_chr (CHR ''/'') (lower path)))) \<noteq> ''.DS_Store''"
proof
  assume a: "snd (splitext (last (split_chr (CHR ''/'') (lower path)))) = ''.DS_Store''"
  have "last (split_chr (CHR ''/'') (lower path)) \<in> set (split_chr (CHR ''/'') (lower path))"
    using split_chr_nonempty by simp
  then have "set (last (split_chr (CHR ''/'') (lower path))) \<subseteq> set (lower path)"
    by (rule split_chr_subset)
  then have "set (snd (splitext (last (split_chr (CHR ''/'') (lower path))))) \<subseteq> set (lower path)"
    using splitext_subset by blast
  then have "CHR ''D'' \<in> set (lower path)" unfolding a by simp
  then show False using lower_no_upper_D by simp
qed

text \<open>
  C4 (as evaluated on the code). The excluded-extension set has the members
  \<open>.min.js\<close>, \<open>.min.css\<close> and \<open>.DS_Store\<close>, yet \<open>_should_skip\<close> keeps a minified
  bundle at the root, a minified stylesheet in a directory and a \<open>.DS_Store\<close> file. No
  path can match these members: the extension that is compared is the one of
  \<open>os.path.splitext\<close>, which holds a single dot, taken from the lower-cased name, which
  holds no capital letter.
\<close>

theorem should_skip_keeps_min_js:
  "should_skip ''app.min.js'' = False
   \<and> should_skip ''static/app.min.css'' = False
   \<and> should_skip ''.DS_Store'' = False
   \<and> ''.min.js'' \<in> SKIP_EXTENSIONS \<and> ''.min.css'' \<in> SKIP_EXTENSIONS
   \<and> ''.DS_Store'' \<in> SKIP_EXTENSIONS
   \<and> snd (splitext (last (split_chr (CHR ''/'') (lower path))))
        \<notin> {''.min.js'', ''.min.css'', ''.DS_Store''}"
proof -
  have e: "should_skip ''app.min.js'' = False
   \<and> should_skip ''static/app.min.css'' = False
   \<and> should_skip ''.DS_Store'' = False
   \<and> ''.min.js'' \<in> SKIP_EXTENSIONS \<and> ''.min.css'' \<in> SKIP_EXTENSIONS
   \<and> ''.DS_Store'' \<in> SKIP_EXTENSIONS"
    by code_simp
  have "snd (splitext (last (split_chr (CHR ''/'') (lower path))))
        \<notin> {''.min.js'', ''.min.css'', ''.DS_Store''}"
    using splitext_not_multi_dot [of "last (split_chr (CHR ''/'') (lower path))"]
      skip_extension_never_ds_store [of path]
    by blast
  with e show ?thesis by blast
qed

end
